theory Spec2Isabelle
  imports Main "HOL-Library.Sublist"
begin

section \<open>CalVer release tool: version strings\<close>

text \<open>
  The repository has three parts: the class \<^verbatim>\<open>CalVerGenerator\<close> (date to version
  string, and the same-day increment), the class \<^verbatim>\<open>GitOperations\<close> (a wrapper
  around the simple-git client) and the command line script \<^verbatim>\<open>calver-release.js\<close>
  that chains them.

  Strings are \<^typ>\<open>string\<close>, lists of 8-bit characters: the model covers JavaScript
  strings whose code units are below 256.
\<close>

subsection \<open>The JavaScript string and number primitives the source calls\<close>

text \<open>\<^verbatim>\<open>v.startsWith(b)\<close>: \<open>b\<close> is a literal prefix of \<open>v\<close>.\<close>

definition startsWith :: "string \<Rightarrow> string \<Rightarrow> bool" where
  "startsWith v b = prefix b v"

text \<open>
  \<^verbatim>\<open>v.split(sep)\<close> for a one-character separator. The result is never empty:
  the empty string gives one empty part, and a trailing separator an empty last part.
  \<open>acc\<close> holds the characters of the current part, newest first.
\<close>

fun split_acc :: "char \<Rightarrow> string \<Rightarrow> string \<Rightarrow> string list" where
  "split_acc sep acc [] = [rev acc]"
| "split_acc sep acc (c # cs) =
     (if c = sep then rev acc # split_acc sep [] cs else split_acc sep (c # acc) cs)"

definition js_split :: "char \<Rightarrow> string \<Rightarrow> string list" where
  "js_split sep v = split_acc sep [] v"

text \<open>
  The numbers of \<^verbatim>\<open>generateIncremental\<close> are doubles that \<^verbatim>\<open>parseInt\<close> returns,
  their differences and the maximum plus one: whole numbers, an infinity or
  \<^verbatim>\<open>NaN\<close>. \<open>Finite n\<close> is the double whose value is the integer \<open>n\<close>; a negative
  zero is not told apart from zero, which \<^verbatim>\<open>|| 0\<close> replaces at once.
\<close>

datatype number = Finite int | PosInfinity | NegInfinity | NaN

text \<open>
  The double nearest to an integer, ties to the even significand. A double has 53
  significant bits: \<open>shiftCount m\<close> is the number of low bits of \<open>m\<close> that do not fit,
  and rounding keeps the quotient by that power of two, or the next one. From
  \<open>2 ^ 1024\<close> on the result is an infinity.
\<close>

function shiftCount :: "int \<Rightarrow> nat" where
  "shiftCount m = (if m < 9007199254740992 then 0 else Suc (shiftCount (m div 2)))"
  by pat_completeness auto
termination
  by (relation "measure nat") auto

declare shiftCount.simps [simp del]

definition roundMagnitude :: "int \<Rightarrow> int" where
  "roundMagnitude m =
     (let e = shiftCount m; q = m div 2 ^ e; r = m mod 2 ^ e
      in if 2 * r > 2 ^ e \<or> (2 * r = 2 ^ e \<and> odd q) then (q + 1) * 2 ^ e else q * 2 ^ e)"

definition roundToDouble :: "int \<Rightarrow> number" where
  "roundToDouble n =
     (let a = roundMagnitude \<bar>n\<bar>
      in if a \<ge> 2 ^ 1024 then (if n < 0 then NegInfinity else PosInfinity)
         else Finite (if n < 0 then - a else a))"

text \<open>Addition and subtraction of doubles: the exact result, rounded.\<close>

fun jsAdd :: "number \<Rightarrow> number \<Rightarrow> number" where
  "jsAdd (Finite a) (Finite b) = roundToDouble (a + b)"
| "jsAdd NaN y = NaN"
| "jsAdd x NaN = NaN"
| "jsAdd PosInfinity NegInfinity = NaN"
| "jsAdd NegInfinity PosInfinity = NaN"
| "jsAdd PosInfinity y = PosInfinity"
| "jsAdd x PosInfinity = PosInfinity"
| "jsAdd NegInfinity y = NegInfinity"
| "jsAdd x NegInfinity = NegInfinity"

fun jsNegate :: "number \<Rightarrow> number" where
  "jsNegate (Finite a) = Finite (- a)"
| "jsNegate PosInfinity = NegInfinity"
| "jsNegate NegInfinity = PosInfinity"
| "jsNegate NaN = NaN"

definition jsSubtract :: "number \<Rightarrow> number \<Rightarrow> number" where
  "jsSubtract x y = jsAdd x (jsNegate y)"

text \<open>
  \<^verbatim>\<open>parseInt(s)\<close> with no radix, after ECMAScript: leading white space is dropped,
  one sign is read, a \<^verbatim>\<open>0x\<close> or \<^verbatim>\<open>0X\<close> prefix selects radix 16, and the longest
  run of digits of the radix is the value, converted to a double. With no digit the
  result is \<^verbatim>\<open>NaN\<close>. Whatever follows the digits is ignored. ECMAScript lets an
  implementation drop decimal digits after the twentieth; the model rounds the exact
  value, as the engine of Node.js does.
\<close>

definition isWhiteSpace :: "char \<Rightarrow> bool" where
  "isWhiteSpace c = (of_char c \<in> {9, 10, 11, 12, 13, 32, 160 :: nat})"

definition digitValue :: "char \<Rightarrow> nat option" where
  "digitValue c =
     (let n = (of_char c :: nat) in
      if 48 \<le> n \<and> n \<le> 57 then Some (n - 48)
      else if 97 \<le> n \<and> n \<le> 102 then Some (n - 87)
      else if 65 \<le> n \<and> n \<le> 70 then Some (n - 55)
      else None)"

definition isDigitOf :: "nat \<Rightarrow> char \<Rightarrow> bool" where
  "isDigitOf radix c = (case digitValue c of None \<Rightarrow> False | Some d \<Rightarrow> d < radix)"

definition digitsValue :: "nat \<Rightarrow> string \<Rightarrow> int" where
  "digitsValue radix z =
     foldl (\<lambda>a c. a * int radix + (case digitValue c of None \<Rightarrow> 0 | Some d \<Rightarrow> int d)) 0 z"

definition parseInt :: "string \<Rightarrow> number" where
  "parseInt inputString =
     (let s = dropWhile isWhiteSpace inputString;
          negative = (s \<noteq> [] \<and> hd s = CHR ''-'');
          s1 = (if s \<noteq> [] \<and> (hd s = CHR ''+'' \<or> hd s = CHR ''-'') then tl s else s);
          hex = (prefix ''0x'' s1 \<or> prefix ''0X'' s1);
          radix = (if hex then 16 else 10);
          s2 = (if hex then drop 2 s1 else s1);
          z = takeWhile (isDigitOf radix) s2
      in if z = [] then NaN
         else roundToDouble ((if negative then - 1 else 1) * digitsValue radix z))"

text \<open>\<^verbatim>\<open>x || 0\<close>: \<^verbatim>\<open>NaN\<close> and zero are falsy, so both give 0; an infinity is kept.\<close>

fun orZero :: "number \<Rightarrow> number" where
  "orZero NaN = Finite 0"
| "orZero (Finite n) = (if n = 0 then Finite 0 else Finite n)"
| "orZero x = x"

text \<open>
  Conversion of a number to a string, as a template literal does it. Below
  \<open>10 ^ 21\<close> a whole number prints all its decimal digits. From there on it prints in
  exponent notation with the fewest digits that still round to the same double, the
  nearest such digits when there are several (\<open>digitChoice\<close> for a given number of
  digits; 17 always suffice, and the last case of \<open>exponential\<close> is never reached).
\<close>

definition digitChar :: "nat \<Rightarrow> char" where
  "digitChar d = ''0123456789'' ! d"

fun decimal :: "nat \<Rightarrow> string" where
  "decimal n = (if n < 10 then [digitChar n] else decimal (n div 10) @ [digitChar (n mod 10)])"

declare decimal.simps [simp del]

function digitCount :: "int \<Rightarrow> nat" where
  "digitCount m = (if m < 10 then 1 else Suc (digitCount (m div 10)))"
  by pat_completeness auto
termination
  by (relation "measure nat") auto

declare digitCount.simps [simp del]

definition digitChoice :: "int \<Rightarrow> nat \<Rightarrow> nat \<Rightarrow> int option" where
  "digitChoice m nd k =
     (let p = 10 ^ (nd - k); lo = m div p; hi = lo + 1;
          okLo = (roundToDouble (lo * p) = Finite m);
          okHi = (roundToDouble (hi * p) = Finite m)
      in if okLo \<and> okHi
         then (if m - lo * p < hi * p - m then Some lo
               else if hi * p - m < m - lo * p then Some hi
               else if even lo then Some lo else Some hi)
         else if okLo then Some lo
         else if okHi then Some hi
         else None)"

fun shortest :: "int \<Rightarrow> nat \<Rightarrow> nat list \<Rightarrow> (nat \<times> int) option" where
  "shortest m nd [] = None"
| "shortest m nd (k # ks) =
     (case digitChoice m nd k of Some s \<Rightarrow> Some (k, s) | None \<Rightarrow> shortest m nd ks)"

definition mantissa :: "string \<Rightarrow> string" where
  "mantissa ds = (if length ds \<le> 1 then ds else hd ds # ''.'' @ tl ds)"

definition exponential :: "int \<Rightarrow> string" where
  "exponential m =
     (let nd = digitCount m
      in case shortest m nd [1, 2, 3, 4, 5, 6, 7, 8, 9, 10, 11, 12, 13, 14, 15, 16, 17] of
           Some (k, s) \<Rightarrow>
             (if s = 10 ^ k then ''1e+'' @ decimal nd
              else mantissa (decimal (nat s)) @ ''e+'' @ decimal (nd - 1))
         | None \<Rightarrow> mantissa (decimal (nat m)) @ ''e+'' @ decimal (nd - 1))"

fun numberToString :: "number \<Rightarrow> string" where
  "numberToString (Finite n) =
     (if n < 0 then ''-'' else []) @
     (if \<bar>n\<bar> < 1000000000000000000000 then decimal (nat \<bar>n\<bar>) else exponential \<bar>n\<bar>)"
| "numberToString PosInfinity = ''Infinity''"
| "numberToString NegInfinity = ''-Infinity''"
| "numberToString NaN = ''NaN''"

text \<open>
  \<^verbatim>\<open>xs.sort(cmp)\<close>: a stable sort under the comparator, \<open>a\<close> before \<open>b\<close> when
  \<open>cmp a b\<close> is not positive; a comparator result \<^verbatim>\<open>NaN\<close> counts as zero. Insertion
  from the right keeps equal elements in their order.
\<close>

fun notPositive :: "number \<Rightarrow> bool" where
  "notPositive (Finite d) = (d \<le> 0)"
| "notPositive PosInfinity = False"
| "notPositive NegInfinity = True"
| "notPositive NaN = True"

fun insertBy :: "(number \<Rightarrow> number \<Rightarrow> number) \<Rightarrow> number \<Rightarrow> number list \<Rightarrow> number list" where
  "insertBy cmp a [] = [a]"
| "insertBy cmp a (b # bs) =
     (if notPositive (cmp a b) then a # b # bs else b # insertBy cmp a bs)"

fun sortBy :: "(number \<Rightarrow> number \<Rightarrow> number) \<Rightarrow> number list \<Rightarrow> number list" where
  "sortBy cmp [] = []"
| "sortBy cmp (a # as) = insertBy cmp a (sortBy cmp as)"

subsection \<open>\<^verbatim>\<open>CalVerGenerator.generateIncremental\<close>\<close>

text \<open>
  The counter read from one existing version: the last part of the version split at
  the dots, through \<^verbatim>\<open>parseInt(lastPart) || 0\<close>.
\<close>

definition lastPartNumber :: "string \<Rightarrow> number" where
  "lastPartNumber v =
     (let parts = js_split CHR ''.'' v;
          lastPart = parts ! (length parts - 1)
      in orZero (parseInt lastPart))"

definition generateIncremental :: "string \<Rightarrow> string list \<Rightarrow> string" where
  "generateIncremental baseVersion existingVersions =
     (let matchingVersions =
            sortBy (\<lambda>a b. jsSubtract b a)
              (map lastPartNumber (filter (\<lambda>v. startsWith v baseVersion) existingVersions))
      in if length matchingVersions = 0 then baseVersion
         else (let increment = jsAdd (matchingVersions ! 0) (Finite 1)
               in baseVersion @ ''.'' @ numberToString increment))"

text \<open>
  The algorithm in the words of the specification, on the integers of mathematics:
  keep the versions that start with the base, read each one's final dot component as
  an integer (0 when it does not parse), take the maximum, add one and join it to the
  base with a dot; with no match the base is the result. A component parses to the
  integer it starts with: white space, an optional sign, and a run of decimal
  digits, or of hexadecimal digits after \<^verbatim>\<open>0x\<close>; what follows the digits does not
  count, and a component that starts with no digit does not parse.
\<close>

definition leadingInteger :: "string \<Rightarrow> int option" where
  "leadingInteger component =
     (let t = dropWhile isWhiteSpace component;
          unsigned = (case t of [] \<Rightarrow> [] | c # cs \<Rightarrow> if c = CHR ''+'' \<or> c = CHR ''-'' then cs else t);
          hexadecimal = (take 2 unsigned = ''0x'' \<or> take 2 unsigned = ''0X'');
          base = (if hexadecimal then 16 else 10);
          digits = takeWhile (isDigitOf base) (if hexadecimal then drop 2 unsigned else unsigned)
      in if digits = [] then None
         else Some (if take 1 t = ''-'' then - digitsValue base digits
                    else digitsValue base digits))"

definition finalComponentInteger :: "string \<Rightarrow> int" where
  "finalComponentInteger v =
     (case leadingInteger (last (js_split CHR ''.'' v)) of None \<Rightarrow> 0 | Some n \<Rightarrow> n)"

definition decimalNumeral :: "int \<Rightarrow> string" where
  "decimalNumeral i = (if i < 0 then CHR ''-'' # decimal (nat (- i)) else decimal (nat i))"

definition resolve_spec :: "string \<Rightarrow> string list \<Rightarrow> string" where
  "resolve_spec baseVersion existingVersions =
     (let matches = filter (prefix baseVersion) existingVersions
      in if matches = [] then baseVersion
         else baseVersion @ ''.'' @
              decimalNumeral (Max (set (map finalComponentInteger matches)) + 1))"

text \<open>
  The integers that a double holds exactly together with their successor: those
  below \<open>2 ^ 53\<close> in absolute value.
\<close>

definition safeInteger :: "int \<Rightarrow> bool" where
  "safeInteger n = (\<bar>n\<bar> < 9007199254740992)"

subsection \<open>\<^verbatim>\<open>CalVerGenerator.generate\<close>\<close>

text \<open>
  \<^verbatim>\<open>moment(date).utc()\<close> is seen through the calendar fields it reads off a valid
  date in UTC. JavaScript dates reach from the year -271821 to the year 275760.
\<close>

record moment =
  utcYear :: int
  utcMonth :: nat
  utcDate :: nat
  utcIsoWeek :: nat
  utcDayOfYear :: nat

definition validMoment :: "moment \<Rightarrow> bool" where
  "validMoment m =
     (- 271821 \<le> utcYear m \<and> utcYear m \<le> 275760 \<and>
      1 \<le> utcMonth m \<and> utcMonth m \<le> 12 \<and>
      1 \<le> utcDate m \<and> utcDate m \<le> 31 \<and>
      1 \<le> utcIsoWeek m \<and> utcIsoWeek m \<le> 53 \<and>
      1 \<le> utcDayOfYear m \<and> utcDayOfYear m \<le> 366)"

text \<open>
  The moment library is a dependency of the repository, not part of it. Its padding
  helper \<^verbatim>\<open>zeroFill(number, targetLength)\<close> writes the sign of a negative number,
  then zeros up to the target length, then the digits of the absolute value: it pads
  and never cuts. The tokens used by the six templates of the source are
  \<^verbatim>\<open>YYYY\<close> (year, padded to 4), \<^verbatim>\<open>YY\<close> (year % 100, padded to 2),
  \<^verbatim>\<open>MM\<close> (month, padded to 2), \<^verbatim>\<open>DD\<close> (day of month, padded to 2),
  \<^verbatim>\<open>WW\<close> (ISO week, padded to 2) and \<^verbatim>\<open>DDD\<close> (day of year, not padded:
  the padded token of the library is \<^verbatim>\<open>DDDD\<close>); a dot stands for itself. The
  remainder of JavaScript takes the sign of the dividend.
\<close>

definition zeroFill :: "int \<Rightarrow> nat \<Rightarrow> string" where
  "zeroFill number targetLength =
     (let absNumber = decimal (nat \<bar>number\<bar>);
          zerosToFill = targetLength - length absNumber
      in (if number \<ge> 0 then [] else ''-'') @ replicate zerosToFill CHR ''0'' @ absNumber)"

definition jsRemainder :: "int \<Rightarrow> int \<Rightarrow> int" where
  "jsRemainder a b = (if a < 0 then - (\<bar>a\<bar> mod \<bar>b\<bar>) else a mod \<bar>b\<bar>)"

definition token_YYYY :: "moment \<Rightarrow> string" where
  "token_YYYY m = zeroFill (utcYear m) 4"

definition token_YY :: "moment \<Rightarrow> string" where
  "token_YY m = zeroFill (jsRemainder (utcYear m) 100) 2"

definition token_MM :: "moment \<Rightarrow> string" where
  "token_MM m = zeroFill (int (utcMonth m)) 2"

definition token_DD :: "moment \<Rightarrow> string" where
  "token_DD m = zeroFill (int (utcDate m)) 2"

definition token_WW :: "moment \<Rightarrow> string" where
  "token_WW m = zeroFill (int (utcIsoWeek m)) 2"

definition token_DDD :: "moment \<Rightarrow> string" where
  "token_DDD m = decimal (utcDayOfYear m)"

text \<open>
  \<^verbatim>\<open>m.format(template)\<close> on the six templates the source passes literally. Any
  other template is the caller's own; what the library makes of it is the parameter
  \<open>other\<close>.
\<close>

definition momentFormat :: "(string \<Rightarrow> moment \<Rightarrow> string) \<Rightarrow> string \<Rightarrow> moment \<Rightarrow> string" where
  "momentFormat other template m =
     (if template = ''YYYY.MM.DD'' then token_YYYY m @ ''.'' @ token_MM m @ ''.'' @ token_DD m
      else if template = ''YY.MM.DD'' then token_YY m @ ''.'' @ token_MM m @ ''.'' @ token_DD m
      else if template = ''YYYY.MM'' then token_YYYY m @ ''.'' @ token_MM m
      else if template = ''YYYY.WW'' then token_YYYY m @ ''.'' @ token_WW m
      else if template = ''YYYYMMDD'' then token_YYYY m @ token_MM m @ token_DD m
      else if template = ''YYYY.DDD'' then token_YYYY m @ ''.'' @ token_DDD m
      else other template m)"

text \<open>\<^verbatim>\<open>s.toLowerCase()\<close> on code units below 256: the ASCII and the Latin-1 capitals.\<close>

definition lowerChar :: "char \<Rightarrow> char" where
  "lowerChar c =
     (let n = (of_char c :: nat) in
      if (65 \<le> n \<and> n \<le> 90) \<or> (192 \<le> n \<and> n \<le> 222 \<and> n \<noteq> 215) then char_of (n + 32) else c)"

definition toLowerCase :: "string \<Rightarrow> string" where
  "toLowerCase s = map lowerChar s"

record CalVerGenerator =
  format :: string
  timezone :: string

text \<open>
  The constructor: \<^verbatim>\<open>options.format || 'YYYY.MM.DD'\<close>, and the same for the time
  zone. An absent option and the empty string are both falsy.
\<close>

definition orDefault :: "string option \<Rightarrow> string \<Rightarrow> string" where
  "orDefault x d = (case x of None \<Rightarrow> d | Some s \<Rightarrow> (if s = [] then d else s))"

definition newCalVerGenerator :: "string option \<Rightarrow> string option \<Rightarrow> CalVerGenerator" where
  "newCalVerGenerator optFormat optTimezone =
     \<lparr>format = orDefault optFormat ''YYYY.MM.DD'', timezone = orDefault optTimezone ''UTC''\<rparr>"

text \<open>
  \<^verbatim>\<open>generate(date)\<close>; \<open>fmt\<close> is the library's \<^verbatim>\<open>format\<close> and \<open>m\<close> the date in
  UTC. The caller passes the current time when the source's default applies.
\<close>

definition generate :: "(string \<Rightarrow> moment \<Rightarrow> string) \<Rightarrow> CalVerGenerator \<Rightarrow> moment \<Rightarrow> string" where
  "generate fmt self m =
     (let f = toLowerCase (format self) in
      if f = ''yyyy.mm.dd'' then fmt ''YYYY.MM.DD'' m
      else if f = ''yy.mm.dd'' then fmt ''YY.MM.DD'' m
      else if f = ''yyyy.mm'' then fmt ''YYYY.MM'' m
      else if f = ''yyyy.ww'' then fmt ''YYYY.WW'' m
      else if f = ''yyyymmdd'' then fmt ''YYYYMMDD'' m
      else if f = ''yyyy.ddd'' then fmt ''YYYY.DDD'' m
      else fmt (format self) m)"

section \<open>Effects: console, prompts and git commands\<close>

text \<open>
  An asynchronous function of the source either returns or throws, and on its way
  writes to the console, asks the user and runs git commands. A computation is the
  list of the events it caused, in order, with its outcome: \<open>Inl\<close> an exception,
  \<open>Inr\<close> the returned value. Console lines are recorded without their colours and
  without the decorative glyph some of them start with.
\<close>

datatype error = Error string

datatype event =
    ConsoleLog string
  | ConsoleError string
  | AskConfirm string
  | AskConfiguration
  | GitCheckout string
  | GitPull
  | GitCheckoutLocalBranch string
  | GitPush "string list"

type_synonym 'a io = "event list \<times> (error + 'a)"

definition ret :: "'a \<Rightarrow> 'a io" where
  "ret v = ([], Inr v)"

definition throw :: "string \<Rightarrow> 'a io" where
  "throw message = ([], Inl (Error message))"

definition emit :: "event \<Rightarrow> unit io" where
  "emit e = ([e], Inr ())"

definition await :: "error + 'a \<Rightarrow> 'a io" where
  "await r = ([], r)"

definition bind :: "'a io \<Rightarrow> ('a \<Rightarrow> 'b io) \<Rightarrow> 'b io" where
  "bind m f =
     (case snd m of
        Inl e \<Rightarrow> (fst m, Inl e)
      | Inr v \<Rightarrow> (fst m @ fst (f v), snd (f v)))"

definition tryCatch :: "'a io \<Rightarrow> (error \<Rightarrow> 'a io) \<Rightarrow> 'a io" where
  "tryCatch m handler =
     (case snd m of
        Inl e \<Rightarrow> (fst m @ fst (handler e), snd (handler e))
      | Inr v \<Rightarrow> (fst m, Inr v))"

text \<open>The events that change the repository: the four git commands that write.\<close>

fun mutation :: "event \<Rightarrow> bool" where
  "mutation (GitCheckout b) = True"
| "mutation GitPull = True"
| "mutation (GitCheckoutLocalBranch b) = True"
| "mutation (GitPush args) = True"
| "mutation e = False"

definition mutations :: "event list \<Rightarrow> event list" where
  "mutations t = filter mutation t"

fun consoleError :: "event \<Rightarrow> bool" where
  "consoleError (ConsoleError line) = True"
| "consoleError e = False"

section \<open>\<^verbatim>\<open>GitOperations\<close>\<close>

text \<open>
  The simple-git client is the repository as this run sees it: what each query
  answers, and whether each writing command succeeds. The run is sequential and
  alone on the repository, and every query comes before the first write, so a
  query has one answer. \<^verbatim>\<open>branches.all\<close> and \<^verbatim>\<open>tags.all\<close> are the lists of names.
\<close>

record statusResult =
  current :: string
  files :: "string list"
  ahead :: nat
  behind :: nat

record remote =
  remoteName :: string
  fetchRef :: string

record simpleGit =
  git_status :: "error + statusResult"
  git_branchLocal :: "error + string list"
  git_branchRemote :: "error + string list"
  git_tags :: "error + string list"
  git_getRemotes :: "error + remote list"
  git_checkout :: "string \<Rightarrow> error + unit"
  git_pull :: "error + unit"
  git_checkoutLocalBranch :: "string \<Rightarrow> error + unit"
  git_push :: "string list \<Rightarrow> error + unit"

record repoInfo =
  currentBranch :: string
  isClean :: bool
  remoteUrl :: "string option"
  infoAhead :: nat
  infoBehind :: nat

text \<open>\<^verbatim>\<open>s.includes(sub)\<close>: \<open>sub\<close> occurs somewhere in \<open>s\<close>.\<close>

fun js_includes :: "string \<Rightarrow> string \<Rightarrow> bool" where
  "js_includes [] sub = (sub = [])"
| "js_includes (c # cs) sub = (prefix sub (c # cs) \<or> js_includes cs sub)"

definition isGitRepo :: "simpleGit \<Rightarrow> bool io" where
  "isGitRepo git =
     tryCatch (bind (await (git_status git)) (\<lambda>_. ret True)) (\<lambda>error. ret False)"

definition branchExists :: "simpleGit \<Rightarrow> string \<Rightarrow> bool io" where
  "branchExists git branchName =
     tryCatch
       (bind (await (git_branchLocal git)) (\<lambda>branches. ret (branchName \<in> set branches)))
       (\<lambda>error. ret False)"

definition remoteBranchExists :: "simpleGit \<Rightarrow> string \<Rightarrow> string \<Rightarrow> bool io" where
  "remoteBranchExists git branchName remote =
     tryCatch
       (bind (await (git_branchRemote git)) (\<lambda>branches.
          ret (list_ex (\<lambda>branch. js_includes branch (remote @ ''/'' @ branchName)) branches)))
       (\<lambda>error. ret False)"

text \<open>
  \<^verbatim>\<open>tag.match(pattern)\<close> is truthy when the regular expression matches; a compiled
  pattern is the predicate on strings it decides.
\<close>

definition getMatchingTags :: "simpleGit \<Rightarrow> (string \<Rightarrow> bool) \<Rightarrow> string list io" where
  "getMatchingTags git pattern =
     tryCatch
       (bind (await (git_tags git)) (\<lambda>tags. ret (filter (\<lambda>tag. pattern tag) tags)))
       (\<lambda>error. ret [])"

definition getMatchingBranches :: "simpleGit \<Rightarrow> (string \<Rightarrow> bool) \<Rightarrow> string list io" where
  "getMatchingBranches git pattern =
     tryCatch
       (bind (await (git_branchLocal git)) (\<lambda>branches.
          ret (filter (\<lambda>branch. pattern branch) branches)))
       (\<lambda>error. ret [])"

text \<open>
  \<^verbatim>\<open>createBranch(branchName, fromBranch)\<close>: \<open>None\<close> is the source's \<^verbatim>\<open>null\<close>, and
  the empty string is falsy as well. Each git command is recorded when it is issued,
  before its outcome is known.
\<close>

definition command :: "event \<Rightarrow> error + unit \<Rightarrow> unit io" where
  "command e r = ([e], r)"

definition createBranch :: "simpleGit \<Rightarrow> string \<Rightarrow> string option \<Rightarrow> unit io" where
  "createBranch git branchName fromBranch =
     bind (case fromBranch of
             None \<Rightarrow> ret ()
           | Some b \<Rightarrow>
               (if b = [] then ret ()
                else bind (command (GitCheckout b) (git_checkout git b))
                       (\<lambda>_. command GitPull (git_pull git))))
       (\<lambda>_. bind (command (GitCheckoutLocalBranch branchName)
                    (git_checkoutLocalBranch git branchName))
       (\<lambda>_. emit (ConsoleLog (''Created and switched to branch: '' @ branchName))))"

definition pushBranch :: "simpleGit \<Rightarrow> string \<Rightarrow> string \<Rightarrow> unit io" where
  "pushBranch git branchName remote =
     bind (command (GitPush [''-u'', remote, branchName])
             (git_push git [''-u'', remote, branchName]))
       (\<lambda>_. emit (ConsoleLog (''Pushed branch to '' @ remote @ ''/'' @ branchName)))"

definition getRepoInfo :: "simpleGit \<Rightarrow> repoInfo io" where
  "getRepoInfo git =
     tryCatch
       (bind (await (git_getRemotes git)) (\<lambda>remotes.
        let origin = find (\<lambda>r. remoteName r = ''origin'') remotes in
        bind (await (git_status git)) (\<lambda>status.
        ret \<lparr>currentBranch = current status,
             isClean = (length (files status) = 0),
             remoteUrl = map_option fetchRef origin,
             infoAhead = ahead status,
             infoBehind = behind status\<rparr>)))
       (\<lambda>error. case error of Error message \<Rightarrow>
          throw (''Failed to get repository info: '' @ message))"

section \<open>The \<^verbatim>\<open>create\<close> command\<close>

text \<open>
  The options as the command line parser hands them over, its defaults applied. The
  prompt library is the user: what is answered to the confirmation with a given
  message, and to the three configuration questions with given defaults. A prompt
  may also fail.
\<close>

record options =
  opt_format :: string
  baseBranch :: string
  push :: bool
  dryRun :: bool
  interactive :: bool

record answers =
  ans_format :: string
  ans_baseBranch :: string
  ans_push :: bool

record inquirer =
  promptConfirm :: "string \<Rightarrow> error + bool"
  promptConfiguration :: "string \<Rightarrow> string \<Rightarrow> bool \<Rightarrow> error + answers"

text \<open>
  What a run depends on: the repository, the user, the current time in UTC, the
  regular expression engine (\<^verbatim>\<open>new RegExp(source)\<close> throws on a malformed source
  and otherwise gives the predicate it decides) and the date library on a template
  that is not one of the six.
\<close>

record world =
  git :: simpleGit
  user :: inquirer
  now :: moment
  regExp :: "string \<Rightarrow> error + (string \<Rightarrow> bool)"
  customFormat :: "string \<Rightarrow> moment \<Rightarrow> string"

definition ask :: "event \<Rightarrow> error + 'a \<Rightarrow> 'a io" where
  "ask e r = ([e], r)"

text \<open>\<^verbatim>\<open>xs.join(sep)\<close>.\<close>

fun join :: "string \<Rightarrow> string list \<Rightarrow> string" where
  "join sep [] = []"
| "join sep [x] = x"
| "join sep (x # y # ys) = x @ sep @ join sep (y # ys)"

text \<open>
  \<^verbatim>\<open>s.replace(/\./g, '\\.')\<close>, \<^verbatim>\<open>tag.replace(/^v/, '')\<close> and
  \<^verbatim>\<open>branch.replace(/^release\/v?/, '')\<close>.
\<close>

definition escapeDots :: "string \<Rightarrow> string" where
  "escapeDots s = concat (map (\<lambda>c. if c = CHR ''.'' then [CHR 0x5C, CHR ''.''] else [c]) s)"

definition stripV :: "string \<Rightarrow> string" where
  "stripV tag = (if prefix ''v'' tag then drop 1 tag else tag)"

definition stripRelease :: "string \<Rightarrow> string" where
  "stripRelease branch =
     (if prefix ''release/'' branch
      then (let rest = drop 8 branch in if prefix ''v'' rest then drop 1 rest else rest)
      else branch)"

text \<open>\<^verbatim>\<open>runInteractiveMode\<close>: the answers replace the three options they were asked for.\<close>

definition runInteractiveMode :: "inquirer \<Rightarrow> options \<Rightarrow> options io" where
  "runInteractiveMode inq options =
     bind (ask AskConfiguration
             (promptConfiguration inq (opt_format options) (baseBranch options) (push options)))
       (\<lambda>answers. ret (options\<lparr>opt_format := ans_format answers,
                                baseBranch := ans_baseBranch answers,
                                push := ans_push answers\<rparr>))"

text \<open>
  The end of \<^verbatim>\<open>createReleaseBranch\<close>, from the comment \<^verbatim>\<open>// Create the branch\<close>
  on. It is reached from two places, since a declined confirmation returns early.
\<close>

definition createAndPush :: "world \<Rightarrow> options \<Rightarrow> string \<Rightarrow> string \<Rightarrow> unit io" where
  "createAndPush w config branchName finalVersion =
     bind (emit (ConsoleLog (CHR 0x0A # ''Creating release branch...''))) (\<lambda>_.
     bind (createBranch (git w) branchName (Some (baseBranch config))) (\<lambda>_.
     bind (if push config
           then bind (emit (ConsoleLog ''Pushing to remote...''))
                  (\<lambda>_. pushBranch (git w) branchName ''origin'')
           else ret ()) (\<lambda>_.
     bind (emit (ConsoleLog (CHR 0x0A # ''Release branch created successfully!''))) (\<lambda>_.
     bind (emit (ConsoleLog (CHR 0x0A # ''Next steps:''))) (\<lambda>_.
     bind (emit (ConsoleLog ''  1. Make your changes on this branch'')) (\<lambda>_.
     bind (emit (ConsoleLog ''  2. Run your QA pipeline'')) (\<lambda>_.
     bind (emit (ConsoleLog (''  3. Create a tag: git tag v'' @ finalVersion))) (\<lambda>_.
     emit (ConsoleLog (''  4. Push tag: git push origin v'' @ finalVersion))))))))))"

text \<open>
  The part of \<^verbatim>\<open>createReleaseBranch\<close> that follows the two console lines with the
  final version and the branch name: the two existence checks, the dry run, the
  confirmation.
\<close>

definition checkAndCreate :: "world \<Rightarrow> options \<Rightarrow> options \<Rightarrow> string \<Rightarrow> string \<Rightarrow> unit io" where
  "checkAndCreate w options config branchName finalVersion =
     bind (branchExists (git w) branchName) (\<lambda>existsLocally.
     if existsLocally then throw (''Branch '' @ branchName @ '' already exists locally'')
     else
     bind (remoteBranchExists (git w) branchName ''origin'') (\<lambda>existsRemotely.
     if existsRemotely then throw (''Branch '' @ branchName @ '' already exists on remote'')
     else if dryRun options then
       bind (emit (ConsoleLog (CHR 0x0A # ''DRY RUN - No changes will be made''))) (\<lambda>_.
       bind (emit (ConsoleLog (''Would create branch: '' @ branchName))) (\<lambda>_.
       bind (emit (ConsoleLog (''From base branch: '' @ baseBranch config))) (\<lambda>_.
       if push config then emit (ConsoleLog ''Would push to remote: origin'') else ret ())))
     else if \<not> interactive options then
       bind (ask (AskConfirm (''Create release branch '' @ branchName @ ''?''))
               (promptConfirm (user w) (''Create release branch '' @ branchName @ ''?'')))
         (\<lambda>confirm.
            if \<not> confirm then emit (ConsoleLog ''Cancelled'')
            else createAndPush w config branchName finalVersion)
     else createAndPush w config branchName finalVersion))"

definition createReleaseBranch :: "world \<Rightarrow> options \<Rightarrow> unit io" where
  "createReleaseBranch w options =
     bind (isGitRepo (git w)) (\<lambda>inRepo.
     if \<not> inRepo then throw ''Not in a git repository''
     else
     bind (getRepoInfo (git w)) (\<lambda>repoInfo.
     bind (emit (ConsoleLog (''Repository: '' @ currentBranch repoInfo @ '' branch''))) (\<lambda>_.
     bind (if \<not> isClean repoInfo
           then emit (ConsoleLog ''Working directory has uncommitted changes'')
           else ret ()) (\<lambda>_.
     bind (if interactive options then runInteractiveMode (user w) options
           else ret options) (\<lambda>config.
     let calver = newCalVerGenerator (Some (opt_format config)) None;
         baseVersion = generate (momentFormat (customFormat w)) calver (now w)
     in
     bind (await (regExp w (''^v?'' @ escapeDots baseVersion))) (\<lambda>tagPattern.
     bind (getMatchingTags (git w) tagPattern) (\<lambda>existingTags.
     bind (await (regExp w (''release.*'' @ escapeDots baseVersion))) (\<lambda>branchPattern.
     bind (getMatchingBranches (git w) branchPattern) (\<lambda>existingBranches.
     bind (emit (ConsoleLog (CHR 0x0A # ''Generated base version: '' @ baseVersion))) (\<lambda>_.
     bind (if length existingTags > 0
           then emit (ConsoleLog (''Found existing tags: '' @ join '', '' existingTags))
           else ret ()) (\<lambda>_.
     bind (if length existingBranches > 0
           then emit (ConsoleLog (''Found existing branches: '' @ join '', '' existingBranches))
           else ret ()) (\<lambda>_.
     let finalVersion =
           generateIncremental baseVersion
             (map stripV existingTags @ map stripRelease existingBranches);
         branchName = ''release/v'' @ finalVersion
     in
     bind (emit (ConsoleLog (CHR 0x0A # ''Final version: '' @ finalVersion))) (\<lambda>_.
     bind (emit (ConsoleLog (''Branch name: '' @ branchName))) (\<lambda>_.
     checkAndCreate w options config branchName finalVersion))))))))))))))"

text \<open>
  The action of the \<^verbatim>\<open>create\<close> command: an exception of \<^verbatim>\<open>createReleaseBranch\<close>
  is written to the error stream and the process exits with status 1; otherwise the
  process ends by itself, with status 0.
\<close>

record run =
  trace :: "event list"
  exitCode :: nat

definition createAction :: "world \<Rightarrow> options \<Rightarrow> run" where
  "createAction w options =
     (case snd (createReleaseBranch w options) of
        Inl error \<Rightarrow> (case error of Error message \<Rightarrow>
          \<lparr>trace = fst (createReleaseBranch w options) @ [ConsoleError (''Error: '' @ message)],
           exitCode = 1\<rparr>)
      | Inr _ \<Rightarrow> \<lparr>trace = fst (createReleaseBranch w options), exitCode = 0\<rparr>)"

section \<open>Notions used to state and prove the properties\<close>

text \<open>A decimal integer: an optional minus sign, then one or more of the digits 0 to 9.\<close>

definition isDecimalDigit :: "char \<Rightarrow> bool" where
  "isDecimalDigit c = (48 \<le> (of_char c :: nat) \<and> (of_char c :: nat) \<le> 57)"

definition isDecimalInteger :: "string \<Rightarrow> bool" where
  "isDecimalInteger s =
     (let ds = (if s \<noteq> [] \<and> hd s = CHR ''-'' then tl s else s)
      in ds \<noteq> [] \<and> list_all isDecimalDigit ds)"

text \<open>
  Three classes of events. Before the line with the branch name a run only writes
  other lines to the console and may ask the configuration questions (\<open>early\<close>).
  Once the confirmation is given, it writes lines and runs git commands (\<open>late\<close>).
  \<open>calm\<close> events leave the repository and the error stream alone and are not the
  confirmation question.
\<close>

fun early :: "event \<Rightarrow> bool" where
  "early (ConsoleLog line) = (\<not> prefix ''Branch name: '' line)"
| "early AskConfiguration = True"
| "early e = False"

fun late :: "event \<Rightarrow> bool" where
  "late (ConsoleLog line) = (\<not> prefix ''Branch name: '' line)"
| "late (GitCheckout b) = True"
| "late GitPull = True"
| "late (GitCheckoutLocalBranch b) = True"
| "late (GitPush args) = True"
| "late e = False"

fun calm :: "event \<Rightarrow> bool" where
  "calm (ConsoleLog line) = True"
| "calm AskConfiguration = True"
| "calm e = False"

text \<open>
  The configuration of a run: the options themselves, or in an interactive run the
  options with the three answers in place.
\<close>

definition configured :: "world \<Rightarrow> options \<Rightarrow> options \<Rightarrow> bool" where
  "configured w options config =
     (snd (if interactive options then runInteractiveMode (user w) options else ret options)
        = Inr config)"

text \<open>
  A computation either throws after early events only, or it is some early events,
  the line with the branch name, and then the checks and the creation for that
  branch under the configuration of the run.
\<close>

definition reaches :: "world \<Rightarrow> options \<Rightarrow> unit io \<Rightarrow> bool" where
  "reaches w options m =
     ((list_all early (fst m) \<and> isl (snd m)) \<or>
      (\<exists>t config finalVersion.
         list_all early t \<and> configured w options config \<and>
         m = (t @ [ConsoleLog (''Branch name: '' @ ''release/v'' @ finalVersion)] @
                fst (checkAndCreate w options config (''release/v'' @ finalVersion) finalVersion),
              snd (checkAndCreate w options config (''release/v'' @ finalVersion) finalVersion))))"

subsection \<open>An example repository, user and day\<close>

text \<open>
  The 15th of January 2024; a repository on the branch \<^verbatim>\<open>main\<close> with one remote,
  given tags and given remote branches, in which every git command succeeds; a user
  who gives one answer to the confirmation and accepts the defaults of the
  configuration questions; a user who chooses the base branch \<^verbatim>\<open>develop\<close> and to
  push; and a regular expression engine that knows the two
  patterns built for that day: \<^verbatim>\<open>^v?2024\.01\.15\<close> and \<^verbatim>\<open>release.*2024\.01\.15\<close>.
\<close>

fun matchesReleaseThen :: "string \<Rightarrow> string \<Rightarrow> bool" where
  "matchesReleaseThen x [] = False"
| "matchesReleaseThen x (c # cs) =
     ((prefix ''release'' (c # cs) \<and> js_includes (drop 7 (c # cs)) x) \<or> matchesReleaseThen x cs)"

definition exampleRegExp :: "string \<Rightarrow> error + (string \<Rightarrow> bool)" where
  "exampleRegExp source =
     (if source = ''^v?'' @ escapeDots ''2024.01.15''
      then Inr (\<lambda>s. prefix ''2024.01.15'' s \<or> prefix ''v2024.01.15'' s)
      else if source = ''release.*'' @ escapeDots ''2024.01.15''
      then Inr (matchesReleaseThen ''2024.01.15'')
      else Inl (Error ''pattern unknown to the example''))"

definition exampleGit :: "string list \<Rightarrow> string list \<Rightarrow> simpleGit" where
  "exampleGit tags remoteBranches =
     \<lparr>git_status = Inr \<lparr>current = ''main'', files = [], ahead = 0, behind = 0\<rparr>,
      git_branchLocal = Inr [''main''],
      git_branchRemote = Inr remoteBranches,
      git_tags = Inr tags,
      git_getRemotes = Inr [\<lparr>remoteName = ''origin'', fetchRef = ''git@example.org:team/project.git''\<rparr>],
      git_checkout = (\<lambda>b. Inr ()),
      git_pull = Inr (),
      git_checkoutLocalBranch = (\<lambda>b. Inr ()),
      git_push = (\<lambda>args. Inr ())\<rparr>"

definition exampleUser :: "bool \<Rightarrow> inquirer" where
  "exampleUser answer =
     \<lparr>promptConfirm = (\<lambda>message. Inr answer),
      promptConfiguration = (\<lambda>f b p. Inr \<lparr>ans_format = f, ans_baseBranch = b, ans_push = p\<rparr>)\<rparr>"

definition choosingUser :: inquirer where
  "choosingUser =
     \<lparr>promptConfirm = (\<lambda>message. Inr True),
      promptConfiguration =
        (\<lambda>f b p. Inr \<lparr>ans_format = ''YYYY.MM.DD'', ans_baseBranch = ''develop'', ans_push = True\<rparr>)\<rparr>"

definition exampleNow :: moment where
  "exampleNow = \<lparr>utcYear = 2024, utcMonth = 1, utcDate = 15, utcIsoWeek = 3, utcDayOfYear = 15\<rparr>"

definition exampleWorld :: "simpleGit \<Rightarrow> bool \<Rightarrow> world" where
  "exampleWorld g answer =
     \<lparr>git = g, user = exampleUser answer,
      now = exampleNow,
      regExp = exampleRegExp,
      customFormat = (\<lambda>template m. template)\<rparr>"

definition exampleOptions :: "bool \<Rightarrow> bool \<Rightarrow> options" where
  "exampleOptions dry p =
     \<lparr>opt_format = ''YYYY.MM.DD'', baseBranch = ''main'', push = p, dryRun = dry,
      interactive = False\<rparr>"


section \<open>Properties of the version logic\<close>

text \<open>
  The last dot component, and the numbers that a double holds exactly: every integer
  up to \<open>2 ^ 53\<close> in absolute value is its own rounding.
\<close>

lemma split_acc_nonempty: "split_acc sep acc v \<noteq> []"
  by (induction v arbitrary: acc) auto

lemma lastPart_is_last:
  "js_split sep v ! (length (js_split sep v) - 1) = last (js_split sep v)"
  by (simp add: js_split_def last_conv_nth split_acc_nonempty)

lemma shiftCount_small: "m < 9007199254740992 \<Longrightarrow> shiftCount m = 0"
  by (subst shiftCount.simps) simp

lemma roundMagnitude_small: "0 \<le> m \<Longrightarrow> m < 9007199254740992 \<Longrightarrow> roundMagnitude m = m"
  by (simp add: roundMagnitude_def shiftCount_small)

lemma shiftCount_limit: "shiftCount 9007199254740992 = 1"
  by (subst shiftCount.simps) (simp add: shiftCount_small)

lemma roundMagnitude_limit: "roundMagnitude 9007199254740992 = 9007199254740992"
  by (simp add: roundMagnitude_def shiftCount_limit)

lemma roundMagnitude_exact:
  assumes "0 \<le> m" and "m \<le> 9007199254740992"
  shows "roundMagnitude m = m"
proof (cases "m = 9007199254740992")
  case True
  then show ?thesis by (simp add: roundMagnitude_limit)
next
  case False
  then show ?thesis using assms by (simp add: roundMagnitude_small)
qed

lemma limit_below_overflow: "(9007199254740992 :: int) < 2 ^ 1024"
proof -
  have "(2 :: int) ^ 53 < 2 ^ 1024" by (rule power_strict_increasing) simp_all
  then show ?thesis by simp
qed

lemma roundToDouble_exact:
  assumes "\<bar>n\<bar> \<le> 9007199254740992"
  shows "roundToDouble n = Finite n"
proof -
  have m: "roundMagnitude \<bar>n\<bar> = \<bar>n\<bar>" using assms by (simp add: roundMagnitude_exact)
  have "\<bar>n\<bar> < 2 ^ 1024" using assms limit_below_overflow by linarith
  then show ?thesis by (simp add: roundToDouble_def m Let_def)
qed

lemma shift_le: "1 \<le> m \<Longrightarrow> 2 ^ shiftCount m \<le> m"
proof (induction m rule: shiftCount.induct)
  case (1 m)
  show ?case
  proof (cases "m < 9007199254740992")
    case True
    then show ?thesis using "1.prems" by (simp add: shiftCount_small)
  next
    case False
    then have s: "shiftCount m = Suc (shiftCount (m div 2))" by (subst shiftCount.simps) simp
    have "1 \<le> m div 2" using False by linarith
    then have "2 ^ shiftCount (m div 2) \<le> m div 2" using "1.IH" False by simp
    then have "2 * 2 ^ shiftCount (m div 2) \<le> 2 * (m div 2)" by simp
    also have "\<dots> \<le> m" by simp
    finally show ?thesis by (simp add: s)
  qed
qed

lemma roundMagnitude_zero: "roundMagnitude 0 = 0"
  by (simp add: roundMagnitude_small)

lemma roundMagnitude_pos:
  assumes "0 < m"
  shows "0 < roundMagnitude m"
proof -
  let ?e = "shiftCount m"
  have le: "2 ^ ?e \<le> m" using assms shift_le[of m] by simp
  have p: "(0 :: int) < 2 ^ ?e" by simp
  have "2 ^ ?e div 2 ^ ?e \<le> m div 2 ^ ?e" using le p by (rule zdiv_mono1)
  then have "1 \<le> m div 2 ^ ?e" by simp
  then have "0 < m div 2 ^ ?e * 2 ^ ?e" and "0 < (m div 2 ^ ?e + 1) * 2 ^ ?e"
    using p by simp_all
  then show ?thesis by (simp add: roundMagnitude_def Let_def)
qed

lemma notPositive_round: "notPositive (roundToDouble d) \<longleftrightarrow> d \<le> 0"
proof -
  consider "d < 0" | "d = 0" | "0 < d" by linarith
  then show ?thesis
  proof cases
    case 1
    then have "0 < roundMagnitude \<bar>d\<bar>" by (simp add: roundMagnitude_pos)
    then show ?thesis using 1 by (simp add: roundToDouble_def Let_def)
  next
    case 2
    then show ?thesis by (simp add: roundToDouble_def roundMagnitude_zero)
  next
    case 3
    then have "0 < roundMagnitude \<bar>d\<bar>" by (simp add: roundMagnitude_pos)
    then show ?thesis using 3 by (simp add: roundToDouble_def Let_def)
  qed
qed

text \<open>
  Under the comparator \<open>b - a\<close> the head of the sorted list is the maximum, whatever
  the order of the input.
\<close>

lemma insertBy_nonempty: "insertBy cmp a bs \<noteq> []"
  by (cases bs) auto

lemma sortBy_Nil_iff: "sortBy cmp xs = [] \<longleftrightarrow> xs = []"
  by (cases xs) (auto simp: insertBy_nonempty)

lemma hd_insertBy_desc:
  "hd (insertBy (\<lambda>a b. jsSubtract b a) (Finite x) (Finite y # ys)) = Finite (max x y)"
  by (auto simp: jsSubtract_def notPositive_round)

lemma hd_sortBy_desc:
  "xs \<noteq> [] \<Longrightarrow> hd (sortBy (\<lambda>a b. jsSubtract b a) (map Finite xs)) = Finite (Max (set xs))"
proof (induction xs)
  case Nil
  then show ?case by simp
next
  case (Cons x xs)
  show ?case
  proof (cases "xs = []")
    case True
    then show ?thesis by simp
  next
    case False
    let ?s = "sortBy (\<lambda>a b. jsSubtract b a) (map Finite xs)"
    have "?s \<noteq> []" using False by (simp add: sortBy_Nil_iff)
    then have "?s = Finite (Max (set xs)) # tl ?s"
      using Cons.IH[OF False] by (cases ?s) simp_all
    then have "hd (insertBy (\<lambda>a b. jsSubtract b a) (Finite x) ?s) = Finite (max x (Max (set xs)))"
      using hd_insertBy_desc[of x "Max (set xs)" "tl ?s"] by simp
    moreover have "max x (Max (set xs)) = Max (set (x # xs))" using False by simp
    ultimately show ?thesis by simp
  qed
qed

text \<open>
  What \<^verbatim>\<open>parseInt\<close> returns is the double nearest to the integer that the leading
  numeral denotes.
\<close>

lemma prefix_two: "prefix [a, b] xs \<longleftrightarrow> take 2 xs = [a, b]"
proof (cases xs)
  case Nil
  then show ?thesis by simp
next
  case (Cons x ys)
  then show ?thesis by (cases ys) auto
qed

lemma parseInt_leading:
  "parseInt s = (case leadingInteger s of None \<Rightarrow> NaN | Some n \<Rightarrow> roundToDouble n)"
proof -
  define t where "t = dropWhile isWhiteSpace s"
  have u: "(if t \<noteq> [] \<and> (hd t = CHR ''+'' \<or> hd t = CHR ''-'') then tl t else t) =
           (case t of [] \<Rightarrow> [] | c # cs \<Rightarrow> if c = CHR ''+'' \<or> c = CHR ''-'' then cs else t)"
    by (cases t) auto
  have n: "(t \<noteq> [] \<and> hd t = CHR ''-'') = (take 1 t = ''-'')"
    by (cases t) auto
  show ?thesis
    unfolding parseInt_def leadingInteger_def Let_def t_def[symmetric] u n prefix_two
    by simp
qed

text \<open>Numbers below \<open>10 ^ 21\<close> are printed as decimal numerals.\<close>

lemma isDecimalDigit_digitChar: "d < 10 \<Longrightarrow> isDecimalDigit (digitChar d)"
proof -
  assume "d < 10"
  then have "d \<in> {0, 1, 2, 3, 4, 5, 6, 7, 8, 9}" by auto
  then show ?thesis by (auto simp: isDecimalDigit_def digitChar_def)
qed

lemma decimal_digits: "decimal n \<noteq> [] \<and> list_all isDecimalDigit (decimal n)"
proof (induction n rule: decimal.induct)
  case (1 n)
  show ?case
  proof (cases "n < 10")
    case True
    then have "decimal n = [digitChar n]" by (subst decimal.simps) simp
    then show ?thesis using True by (simp add: isDecimalDigit_digitChar)
  next
    case False
    then have "decimal n = decimal (n div 10) @ [digitChar (n mod 10)]"
      by (subst decimal.simps) simp
    moreover have "isDecimalDigit (digitChar (n mod 10))" by (simp add: isDecimalDigit_digitChar)
    ultimately show ?thesis using 1 False by simp
  qed
qed

lemma hd_decimal_not_minus: "hd (decimal n) \<noteq> CHR ''-''"
  using decimal_digits[of n] by (cases "decimal n") (auto simp: isDecimalDigit_def)

lemma isDecimalInteger_decimalNumeral: "isDecimalInteger (decimalNumeral i)"
  using decimal_digits hd_decimal_not_minus
  by (simp add: isDecimalInteger_def decimalNumeral_def)

lemma numberToString_small:
  "\<bar>n\<bar> < 1000000000000000000000 \<Longrightarrow> numberToString (Finite n) = decimalNumeral n"
  by (auto simp: decimalNumeral_def)

lemma lastPartNumber_leading:
  "lastPartNumber v = orZero (case leadingInteger (last (js_split CHR ''.'' v)) of
                               None \<Rightarrow> NaN | Some n \<Rightarrow> roundToDouble n)"
proof -
  have l: "js_split CHR ''.'' v ! (length (js_split CHR ''.'' v) - 1) = last (js_split CHR ''.'' v)"
    by (rule lastPart_is_last)
  show ?thesis unfolding lastPartNumber_def Let_def l parseInt_leading ..
qed

lemma lastPartNumber_safe:
  assumes "safeInteger (finalComponentInteger v)"
  shows "lastPartNumber v = Finite (finalComponentInteger v)"
proof (cases "leadingInteger (last (js_split CHR ''.'' v))")
  case None
  then show ?thesis by (simp add: lastPartNumber_leading finalComponentInteger_def)
next
  case (Some n)
  then have f: "finalComponentInteger v = n" by (simp add: finalComponentInteger_def)
  then have "\<bar>n\<bar> \<le> 9007199254740992" using assms by (simp add: safeInteger_def)
  then have "roundToDouble n = Finite n" by (rule roundToDouble_exact)
  then show ?thesis using Some f by (simp add: lastPartNumber_leading)
qed

lemma generateIncremental_safe:
  assumes safe: "\<forall>v \<in> set existingVersions.
                   prefix baseVersion v \<longrightarrow> safeInteger (finalComponentInteger v)"
  shows "generateIncremental baseVersion existingVersions =
     (if filter (prefix baseVersion) existingVersions = [] then baseVersion
      else baseVersion @ ''.'' @
           decimalNumeral
             (Max (set (map finalComponentInteger (filter (prefix baseVersion) existingVersions))) + 1))"
proof -
  let ?ms = "filter (prefix baseVersion) existingVersions"
  let ?is = "map finalComponentInteger ?ms"
  let ?sorted = "sortBy (\<lambda>a b. jsSubtract b a) (map lastPartNumber ?ms)"
  have f: "filter (\<lambda>v. startsWith v baseVersion) existingVersions = ?ms"
    by (simp add: startsWith_def)
  have n: "map lastPartNumber ?ms = map Finite ?is"
    using safe by (simp add: lastPartNumber_safe)
  show ?thesis
  proof (cases "?ms = []")
    case True
    then show ?thesis by (simp add: generateIncremental_def f)
  next
    case False
    then have ne: "?is \<noteq> []" by simp
    then have s: "?sorted \<noteq> []" using False by (simp add: sortBy_Nil_iff)
    have "?sorted ! 0 = hd ?sorted" using s by (simp add: hd_conv_nth)
    also have "\<dots> = Finite (Max (set ?is))" unfolding n using ne by (rule hd_sortBy_desc)
    finally have m: "?sorted ! 0 = Finite (Max (set ?is))" .
    have "set ?is \<noteq> {}" using ne unfolding set_empty .
    then have "Max (set ?is) \<in> set ?is" by (rule Max_in[OF finite_set])
    then obtain v where "v \<in> set ?ms" "Max (set ?is) = finalComponentInteger v" by auto
    then have "safeInteger (Max (set ?is))" using safe by auto
    then have b: "\<bar>Max (set ?is) + 1\<bar> \<le> 9007199254740992" by (simp add: safeInteger_def)
    then have "jsAdd (Finite (Max (set ?is))) (Finite 1) = Finite (Max (set ?is) + 1)"
      by (simp add: roundToDouble_exact)
    moreover have "numberToString (Finite (Max (set ?is) + 1)) = decimalNumeral (Max (set ?is) + 1)"
      using b by (intro numberToString_small) linarith
    ultimately show ?thesis
      using False s m by (simp add: generateIncremental_def f Let_def)
  qed
qed

text \<open>The equations that evaluate the source side and the specification side.\<close>

lemmas number_simps =
  generateIncremental_def startsWith_def lastPartNumber_def js_split_def parseInt_def
  isWhiteSpace_def isDigitOf_def digitValue_def digitsValue_def roundToDouble_def
  roundMagnitude_def shiftCount.simps jsSubtract_def decimal.simps digitChar_def
  exponential_def digitCount.simps digitChoice_def mantissa_def Let_def

lemmas spec_simps =
  resolve_spec_def finalComponentInteger_def leadingInteger_def js_split_def
  isWhiteSpace_def isDigitOf_def digitValue_def digitsValue_def decimalNumeral_def
  decimal.simps digitChar_def Let_def

text \<open>
  C1, as amended. For every base version and every collection of existing versions
  in which the final dot component of each version that has the base as a literal
  prefix denotes an integer below \<open>2 ^ 53\<close> in absolute value,
  \<^verbatim>\<open>generateIncremental\<close> computes what the algorithm of the specification
  computes over the integers: the versions with the base as a literal prefix are
  kept, the final dot component of each is parsed as an integer (0 when it does not
  parse), and the result is the base joined by a dot with the maximum plus one, or
  the base itself when nothing matches. Without the bound the two differ, since the
  source computes in doubles: after the last component \<open>2 ^ 53\<close> the source returns
  the existing version itself.
\<close>

theorem generateIncremental_algorithm:
  assumes "\<forall>v \<in> set existingVersions.
             prefix baseVersion v \<longrightarrow> safeInteger (finalComponentInteger v)"
  shows "generateIncremental baseVersion existingVersions = resolve_spec baseVersion existingVersions"
  using generateIncremental_safe[OF assms] by (simp add: resolve_spec_def Let_def)

lemma example_components:
  "finalComponentInteger ''2024.01.15'' = 15"
  "finalComponentInteger ''2024.01.15.3-rc1'' = 3"
  "finalComponentInteger ''2024.01.15.0x1F'' = 31"
  "finalComponentInteger ''2024.01.15.beta'' = 0"
  by (simp_all add: spec_simps)

theorem generateIncremental_algorithm_witness:
  "safeInteger (finalComponentInteger ''2024.01.15'') \<and>
   safeInteger (finalComponentInteger ''2024.01.15.3-rc1'') \<and>
   safeInteger (finalComponentInteger ''2024.01.15.0x1F'') \<and>
   safeInteger (finalComponentInteger ''2024.01.15.beta'') \<and>
   generateIncremental ''2024.01.15''
     [''2024.01.15'', ''2024.01.15.3-rc1'', ''2024.01.14.99'', ''2024.01.15.0x1F'', ''2024.01.15.beta'']
   = resolve_spec ''2024.01.15''
     [''2024.01.15'', ''2024.01.15.3-rc1'', ''2024.01.14.99'', ''2024.01.15.0x1F'', ''2024.01.15.beta''] \<and>
   resolve_spec ''2024.01.15''
     [''2024.01.15'', ''2024.01.15.3-rc1'', ''2024.01.14.99'', ''2024.01.15.0x1F'', ''2024.01.15.beta'']
   = ''2024.01.15.32''"
proof -
  let ?vs = "[''2024.01.15'', ''2024.01.15.3-rc1'', ''2024.01.14.99'', ''2024.01.15.0x1F'', ''2024.01.15.beta'']"
  have s: "safeInteger (finalComponentInteger ''2024.01.15'')"
    "safeInteger (finalComponentInteger ''2024.01.15.3-rc1'')"
    "safeInteger (finalComponentInteger ''2024.01.15.0x1F'')"
    "safeInteger (finalComponentInteger ''2024.01.15.beta'')"
    by (simp_all add: example_components safeInteger_def)
  then have h: "\<forall>v \<in> set ?vs. prefix ''2024.01.15'' v \<longrightarrow> safeInteger (finalComponentInteger v)"
    by simp
  have r: "resolve_spec ''2024.01.15'' ?vs = ''2024.01.15.32''"
    by (simp add: resolve_spec_def example_components decimalNumeral_def decimal.simps digitChar_def)
  from generateIncremental_algorithm[OF h] s r show ?thesis by simp
qed

theorem generateIncremental_rounds:
  "generateIncremental ''2024.01.15'' [''2024.01.15.9007199254740992'']
     = ''2024.01.15.9007199254740992'' \<and>
   resolve_spec ''2024.01.15'' [''2024.01.15.9007199254740992'']
     = ''2024.01.15.9007199254740993''"
proof -
  have "generateIncremental ''2024.01.15'' [''2024.01.15.9007199254740992'']
     = ''2024.01.15.9007199254740992''"
    by (simp add: number_simps)
  moreover have "resolve_spec ''2024.01.15'' [''2024.01.15.9007199254740992'']
     = ''2024.01.15.9007199254740993''"
    by (simp add: spec_simps)
  ultimately show ?thesis by simp
qed

text \<open>
  C2. On the base \<^verbatim>\<open>2024.01.15\<close> and the existing versions \<^verbatim>\<open>2024.01.15\<close>,
  \<^verbatim>\<open>2024.01.15.3\<close> and \<^verbatim>\<open>2024.01.15.1\<close> the specification expects
  \<^verbatim>\<open>2024.01.15.4\<close>. The source returns \<^verbatim>\<open>2024.01.15.16\<close>: the existing
  version that equals the base has no counter, and its last component, the day 15,
  is read as one.
\<close>

theorem same_day_example:
  "generateIncremental ''2024.01.15'' [''2024.01.15'', ''2024.01.15.3'', ''2024.01.15.1'']
     = ''2024.01.15.16''"
  by (simp add: number_simps)

text \<open>
  C3. When no existing version has the base as a literal prefix, the result is the
  base, unchanged. The empty collection is one such case.
\<close>

theorem no_match_returns_base:
  assumes "\<forall>v \<in> set existingVersions. \<not> prefix baseVersion v"
  shows "generateIncremental baseVersion existingVersions = baseVersion"
proof -
  have "filter (\<lambda>v. startsWith v baseVersion) existingVersions = []"
    using assms by (simp add: startsWith_def filter_empty_conv)
  then show ?thesis by (simp add: generateIncremental_def)
qed

theorem no_match_returns_base_witness:
  "\<not> prefix ''2024.01.15'' ''2023.12.01'' \<and>
   generateIncremental ''2024.01.15'' [''2023.12.01''] = ''2024.01.15'' \<and>
   generateIncremental ''2024.01.15'' [] = ''2024.01.15''"
  using no_match_returns_base[of "[''2023.12.01'']" "''2024.01.15''"]
        no_match_returns_base[of "[]" "''2024.01.15''"]
  by simp

text \<open>
  C4. Matching is lexical. As soon as one existing version starts with the
  characters of the base, related or not, the result is not the base but the base
  with a dot and a counter: for the base \<^verbatim>\<open>2024.1\<close> and the existing version
  \<^verbatim>\<open>2024.10.1\<close> it is \<^verbatim>\<open>2024.1.2\<close>.
\<close>

theorem lexical_prefix_collides:
  assumes "v \<in> set existingVersions" and "prefix baseVersion v"
  shows "generateIncremental baseVersion existingVersions \<noteq> baseVersion \<and>
         prefix (baseVersion @ ''.'') (generateIncremental baseVersion existingVersions)"
proof -
  have "filter (\<lambda>v. startsWith v baseVersion) existingVersions \<noteq> []"
    using assms by (auto simp: startsWith_def filter_empty_conv)
  then have "sortBy (\<lambda>a b. jsSubtract b a)
      (map lastPartNumber (filter (\<lambda>v. startsWith v baseVersion) existingVersions)) \<noteq> []"
    by (simp add: sortBy_Nil_iff)
  then show ?thesis by (simp add: generateIncremental_def Let_def)
qed

theorem lexical_prefix_collides_witness:
  "''2024.10.1'' \<in> set [''2024.10.1''] \<and> prefix ''2024.1'' ''2024.10.1'' \<and>
   generateIncremental ''2024.1'' [''2024.10.1''] \<noteq> ''2024.1'' \<and>
   generateIncremental ''2024.1'' [''2024.10.1''] = ''2024.1.2''"
proof -
  have e: "generateIncremental ''2024.1'' [''2024.10.1''] = ''2024.1.2''"
    by (simp add: number_simps)
  have a: "''2024.10.1'' \<in> set [''2024.10.1'']" by simp
  have b: "prefix ''2024.1'' ''2024.10.1''" by simp
  from lexical_prefix_collides[OF a b] e a b show ?thesis by blast
qed

lemma generateIncremental_prefix:
  "prefix baseVersion (generateIncremental baseVersion existingVersions)"
  by (simp add: generateIncremental_def Let_def)

text \<open>
  C5, as amended. The result always starts with the base. When the final dot
  component of each version that has the base as a literal prefix denotes an integer
  below \<open>2 ^ 53\<close> in absolute value, the result is the base, or the base, a dot and a
  decimal integer, which is the maximum of the parsed last components plus one.
  Without the bound the suffix need not be a decimal integer: after a last component
  of 21 nines it is \<^verbatim>\<open>1e+21\<close>.
\<close>

theorem result_extends_base:
  "prefix baseVersion (generateIncremental baseVersion existingVersions) \<and>
   ((\<forall>v \<in> set existingVersions.
       prefix baseVersion v \<longrightarrow> safeInteger (finalComponentInteger v)) \<longrightarrow>
    (generateIncremental baseVersion existingVersions = baseVersion \<or>
     (\<exists>s. generateIncremental baseVersion existingVersions = baseVersion @ ''.'' @ s \<and>
          isDecimalInteger s \<and>
          s = decimalNumeral
                (Max (set (map finalComponentInteger
                             (filter (prefix baseVersion) existingVersions))) + 1))))"
proof (intro conjI impI)
  show "prefix baseVersion (generateIncremental baseVersion existingVersions)"
    by (rule generateIncremental_prefix)
next
  assume safe: "\<forall>v \<in> set existingVersions.
       prefix baseVersion v \<longrightarrow> safeInteger (finalComponentInteger v)"
  show "generateIncremental baseVersion existingVersions = baseVersion \<or>
     (\<exists>s. generateIncremental baseVersion existingVersions = baseVersion @ ''.'' @ s \<and>
          isDecimalInteger s \<and>
          s = decimalNumeral
                (Max (set (map finalComponentInteger
                             (filter (prefix baseVersion) existingVersions))) + 1))"
  proof (cases "filter (prefix baseVersion) existingVersions = []")
    case True
    then show ?thesis using generateIncremental_safe[OF safe] by simp
  next
    case False
    then show ?thesis
      using generateIncremental_safe[OF safe] isDecimalInteger_decimalNumeral by simp
  qed
qed

theorem result_extends_base_witness:
  "safeInteger (finalComponentInteger ''2024.01.15.3'') \<and>
   prefix ''2024.01.15'' (generateIncremental ''2024.01.15'' [''2024.01.15.3'', ''2024.01.14'']) \<and>
   generateIncremental ''2024.01.15'' [''2024.01.15.3'', ''2024.01.14''] = ''2024.01.15.4'' \<and>
   isDecimalInteger ''4''"
proof -
  let ?vs = "[''2024.01.15.3'', ''2024.01.14'']"
  have c: "finalComponentInteger ''2024.01.15.3'' = 3" by (simp add: spec_simps)
  then have s: "safeInteger (finalComponentInteger ''2024.01.15.3'')" by (simp add: safeInteger_def)
  have e: "generateIncremental ''2024.01.15'' ?vs = ''2024.01.15.4''"
    by (simp add: number_simps)
  have d: "isDecimalInteger ''4''" by (simp add: isDecimalInteger_def isDecimalDigit_def)
  from result_extends_base[of "''2024.01.15''" ?vs] s e d show ?thesis by simp
qed

text \<open>The double nearest to 21 nines is \<open>10 ^ 21\<close>, and so is its successor.\<close>

lemma nines_parsed: "parseInt ''999999999999999999999'' = Finite 1000000000000000000000"
  by (simp add: number_simps)

lemma nines_incremented:
  "roundToDouble 1000000000000000000001 = Finite 1000000000000000000000"
  by (simp add: roundToDouble_def roundMagnitude_def shiftCount.simps Let_def)

lemma round_1e21: "roundToDouble 1000000000000000000000 = Finite 1000000000000000000000"
  by (simp add: roundToDouble_def roundMagnitude_def shiftCount.simps Let_def)

lemma round_2e21: "roundToDouble 2000000000000000000000 = Finite 2000000000000000000000"
  by (simp add: roundToDouble_def roundMagnitude_def shiftCount.simps Let_def)

lemma digitCount_1e21: "digitCount 1000000000000000000000 = 22"
  by (simp add: digitCount.simps)

lemma digitChoice_1e21: "digitChoice 1000000000000000000000 22 (Suc 0) = Some 1"
  by (simp add: digitChoice_def Let_def round_1e21 round_2e21)

lemma exponential_1e21: "exponential 1000000000000000000000 = ''1e+21''"
proof -
  have "decimal 21 = ''21''" by (simp add: decimal.simps digitChar_def)
  moreover have "decimal 1 = ''1''" by (simp add: decimal.simps digitChar_def)
  ultimately show ?thesis
    by (simp add: exponential_def digitCount_1e21 digitChoice_1e21 mantissa_def)
qed

theorem result_exponent_notation:
  "generateIncremental ''2024.01.15'' [''2024.01.15.999999999999999999999'']
     = ''2024.01.15.1e+21'' \<and>
   \<not> isDecimalInteger ''1e+21''"
proof -
  have "lastPartNumber ''2024.01.15.999999999999999999999'' = Finite 1000000000000000000000"
    by (simp add: lastPartNumber_def js_split_def nines_parsed)
  then have "generateIncremental ''2024.01.15'' [''2024.01.15.999999999999999999999'']
     = ''2024.01.15.1e+21''"
    by (simp add: generateIncremental_def startsWith_def nines_incremented exponential_1e21)
  moreover have "\<not> isDecimalInteger ''1e+21''"
    by (simp add: isDecimalInteger_def isDecimalDigit_def)
  ultimately show ?thesis by simp
qed

text \<open>Two evaluations that the runs of the command below go through.\<close>

lemma example_increment: "generateIncremental ''2024.01.15'' [''2024.01.15''] = ''2024.01.15.16''"
  by (simp add: number_simps)

lemma example_no_increment: "generateIncremental ''2024.01.15'' [] = ''2024.01.15''"
  by (simp add: number_simps)


section \<open>Properties of \<^verbatim>\<open>generate\<close>\<close>

text \<open>The digits of a number below 10000, and what padding makes of them.\<close>

lemma decimal_1: "n < 10 \<Longrightarrow> decimal n = [digitChar n]"
  by (subst decimal.simps) simp

lemma decimal_2: "10 \<le> n \<Longrightarrow> n < 100 \<Longrightarrow> decimal n = [digitChar (n div 10), digitChar (n mod 10)]"
  by (subst decimal.simps) (simp add: decimal_1)

lemma decimal_3:
  "100 \<le> n \<Longrightarrow> n < 1000 \<Longrightarrow>
   decimal n = [digitChar (n div 100), digitChar (n div 10 mod 10), digitChar (n mod 10)]"
proof -
  assume a: "100 \<le> n" "n < 1000"
  then have "10 \<le> n div 10" "n div 10 < 100" by auto
  then have "decimal (n div 10) = [digitChar (n div 10 div 10), digitChar (n div 10 mod 10)]"
    by (rule decimal_2)
  moreover have "n div 10 div 10 = n div 100" by (simp add: div_mult2_eq[symmetric])
  ultimately show ?thesis using a by (subst decimal.simps) simp
qed

lemma decimal_4:
  "1000 \<le> n \<Longrightarrow> n < 10000 \<Longrightarrow>
   decimal n = [digitChar (n div 1000), digitChar (n div 100 mod 10),
                digitChar (n div 10 mod 10), digitChar (n mod 10)]"
proof -
  assume a: "1000 \<le> n" "n < 10000"
  then have "100 \<le> n div 10" "n div 10 < 1000" by auto
  then have "decimal (n div 10) =
      [digitChar (n div 10 div 100), digitChar (n div 10 div 10 mod 10), digitChar (n div 10 mod 10)]"
    by (rule decimal_3)
  moreover have "n div 10 div 100 = n div 1000" "n div 10 div 10 = n div 100"
    by (simp_all add: div_mult2_eq[symmetric])
  ultimately show ?thesis using a by (subst decimal.simps) simp
qed

lemma digitChar_0: "digitChar 0 = CHR ''0''"
  by (simp add: digitChar_def)

lemma replicate_2_3: "replicate 2 x = [x, x]" "replicate 3 x = [x, x, x]"
  by (simp_all add: numeral_2_eq_2 numeral_3_eq_3)

lemma zeroFill_2:
  assumes "n < 100"
  shows "zeroFill (int n) 2 = [digitChar (n div 10), digitChar (n mod 10)]"
proof (cases "n < 10")
  case True
  then show ?thesis by (simp add: zeroFill_def decimal_1 digitChar_0)
next
  case False
  then show ?thesis using assms by (simp add: zeroFill_def decimal_2)
qed

lemma zeroFill_4:
  assumes "n < 10000"
  shows "zeroFill (int n) 4 =
     [digitChar (n div 1000), digitChar (n div 100 mod 10),
      digitChar (n div 10 mod 10), digitChar (n mod 10)]"
proof -
  consider "n < 10" | "10 \<le> n" "n < 100" | "100 \<le> n" "n < 1000" | "1000 \<le> n" "n < 10000"
    using assms by linarith
  then show ?thesis
  proof cases
    case 1
    then show ?thesis by (simp add: zeroFill_def decimal_1 digitChar_0 replicate_2_3)
  next
    case 2
    then show ?thesis by (simp add: zeroFill_def decimal_2 digitChar_0 replicate_2_3)
  next
    case 3
    then show ?thesis by (simp add: zeroFill_def decimal_3 digitChar_0)
  next
    case 4
    then show ?thesis by (simp add: zeroFill_def decimal_4)
  qed
qed

lemma lower_compact: "toLowerCase ''YYYYMMDD'' = ''yyyymmdd''"
  by code_simp

text \<open>
  C6, as amended. For every date whose year in UTC lies between 0 and 9999,
  \<^verbatim>\<open>generate\<close> under the format \<^verbatim>\<open>YYYYMMDD\<close>, in any mix of capitals, is a
  string of length 8: the four digits of the year, the two of the month and the two
  of the day. The statement for every date fails, since the padding of the year
  never cuts: in the year 10000 the result has nine characters.
\<close>

theorem generate_compact_date:
  assumes f: "toLowerCase (format self) = ''yyyymmdd''"
      and v: "validMoment m"
      and y: "0 \<le> utcYear m" "utcYear m \<le> 9999"
  shows "length (generate (momentFormat other) self m) = 8 \<and>
         generate (momentFormat other) self m =
           [digitChar (nat (utcYear m) div 1000), digitChar (nat (utcYear m) div 100 mod 10),
            digitChar (nat (utcYear m) div 10 mod 10), digitChar (nat (utcYear m) mod 10),
            digitChar (utcMonth m div 10), digitChar (utcMonth m mod 10),
            digitChar (utcDate m div 10), digitChar (utcDate m mod 10)]"
proof -
  have g: "generate (momentFormat other) self m = token_YYYY m @ token_MM m @ token_DD m"
    using f by (simp add: generate_def momentFormat_def)
  have "utcYear m = int (nat (utcYear m))" "nat (utcYear m) < 10000" using y by auto
  then have yy: "token_YYYY m =
      [digitChar (nat (utcYear m) div 1000), digitChar (nat (utcYear m) div 100 mod 10),
       digitChar (nat (utcYear m) div 10 mod 10), digitChar (nat (utcYear m) mod 10)]"
    unfolding token_YYYY_def using zeroFill_4[of "nat (utcYear m)"] by simp
  have "utcMonth m < 100" "utcDate m < 100" using v by (auto simp: validMoment_def)
  then have md: "token_MM m = [digitChar (utcMonth m div 10), digitChar (utcMonth m mod 10)]"
      "token_DD m = [digitChar (utcDate m div 10), digitChar (utcDate m mod 10)]"
    by (simp_all add: token_MM_def token_DD_def zeroFill_2)
  show ?thesis using g yy md by simp
qed

theorem generate_compact_date_witness:
  "toLowerCase (format (newCalVerGenerator (Some ''YYYYMMDD'') None)) = ''yyyymmdd'' \<and>
   validMoment \<lparr>utcYear = 2024, utcMonth = 1, utcDate = 15, utcIsoWeek = 3, utcDayOfYear = 15\<rparr> \<and>
   generate (momentFormat (\<lambda>t m. [])) (newCalVerGenerator (Some ''YYYYMMDD'') None)
     \<lparr>utcYear = 2024, utcMonth = 1, utcDate = 15, utcIsoWeek = 3, utcDayOfYear = 15\<rparr> = ''20240115''"
proof -
  let ?g = "newCalVerGenerator (Some ''YYYYMMDD'') None"
  let ?m = "\<lparr>utcYear = 2024, utcMonth = 1, utcDate = 15, utcIsoWeek = 3, utcDayOfYear = 15\<rparr>"
  have f: "toLowerCase (format ?g) = ''yyyymmdd''"
    by (simp add: newCalVerGenerator_def orDefault_def lower_compact)
  have v: "validMoment ?m" by (simp add: validMoment_def)
  have y: "0 \<le> utcYear ?m" "utcYear ?m \<le> 9999" by simp_all
  from generate_compact_date[OF f v y, of "\<lambda>t m. []"]
  have "generate (momentFormat (\<lambda>t m. [])) ?g ?m = ''20240115''"
    by (simp add: digitChar_def)
  with f v show ?thesis by blast
qed

theorem generate_year_10000:
  "validMoment \<lparr>utcYear = 10000, utcMonth = 1, utcDate = 1, utcIsoWeek = 52, utcDayOfYear = 1\<rparr> \<and>
   generate (momentFormat (\<lambda>t m. [])) (newCalVerGenerator (Some ''YYYYMMDD'') None)
     \<lparr>utcYear = 10000, utcMonth = 1, utcDate = 1, utcIsoWeek = 52, utcDayOfYear = 1\<rparr> = ''100000101'' \<and>
   length (generate (momentFormat (\<lambda>t m. [])) (newCalVerGenerator (Some ''YYYYMMDD'') None)
     \<lparr>utcYear = 10000, utcMonth = 1, utcDate = 1, utcIsoWeek = 52, utcDayOfYear = 1\<rparr>) \<noteq> 8"
  by (simp add: validMoment_def generate_def newCalVerGenerator_def orDefault_def lower_compact
        momentFormat_def token_YYYY_def token_MM_def token_DD_def zeroFill_def decimal.simps
        digitChar_def)

section \<open>Properties of the repository queries\<close>

lemma fst_ret [simp]: "fst (ret v) = []" and snd_ret [simp]: "snd (ret v) = Inr v"
  by (simp_all add: ret_def)

lemma fst_throw [simp]: "fst (throw s) = []" and snd_throw [simp]: "snd (throw s) = Inl (Error s)"
  by (simp_all add: throw_def)

lemma fst_emit [simp]: "fst (emit e) = [e]" and snd_emit [simp]: "snd (emit e) = Inr ()"
  by (simp_all add: emit_def)

lemma fst_await [simp]: "fst (await r) = []" and snd_await [simp]: "snd (await r) = r"
  by (simp_all add: await_def)

lemma fst_ask [simp]: "fst (ask e r) = [e]" and snd_ask [simp]: "snd (ask e r) = r"
  by (simp_all add: ask_def)

lemma fst_command [simp]: "fst (command e r) = [e]" and snd_command [simp]: "snd (command e r) = r"
  by (simp_all add: command_def)

lemma bind_Inl: "snd m = Inl e \<Longrightarrow> bind m f = (fst m, Inl e)"
  by (simp add: bind_def)

lemma bind_Inr: "snd m = Inr v \<Longrightarrow> bind m f = (fst m @ fst (f v), snd (f v))"
  by (simp add: bind_def)

lemma fst_bind: "fst (bind m f) = (case snd m of Inl e \<Rightarrow> fst m | Inr v \<Rightarrow> fst m @ fst (f v))"
  by (simp add: bind_def split: sum.splits)

lemma snd_bind: "snd (bind m f) = (case snd m of Inl e \<Rightarrow> Inl e | Inr v \<Rightarrow> snd (f v))"
  by (simp add: bind_def split: sum.splits)

lemma tryCatch_Inr: "snd m = Inr v \<Longrightarrow> tryCatch m h = (fst m, Inr v)"
  by (simp add: tryCatch_def)

lemma tryCatch_Inl: "snd m = Inl e \<Longrightarrow> tryCatch m h = (fst m @ fst (h e), snd (h e))"
  by (simp add: tryCatch_def)

text \<open>The queries cause no event, and four of them never throw.\<close>

lemma isGitRepo_cases:
  "isGitRepo g = ([], Inr (\<not> isl (git_status g)))"
  by (cases "git_status g") (simp_all add: isGitRepo_def tryCatch_def bind_def)

lemma branchExists_cases:
  "branchExists g b =
     ([], Inr (case git_branchLocal g of Inl e \<Rightarrow> False | Inr bs \<Rightarrow> b \<in> set bs))"
  by (cases "git_branchLocal g") (simp_all add: branchExists_def tryCatch_def bind_def)

lemma remoteBranchExists_cases:
  "remoteBranchExists g b r =
     ([], Inr (case git_branchRemote g of Inl e \<Rightarrow> False
               | Inr bs \<Rightarrow> list_ex (\<lambda>branch. js_includes branch (r @ ''/'' @ b)) bs))"
  by (cases "git_branchRemote g") (simp_all add: remoteBranchExists_def tryCatch_def bind_def)

lemma getMatchingTags_cases:
  "getMatchingTags g p = ([], Inr (case git_tags g of Inl e \<Rightarrow> [] | Inr ts \<Rightarrow> filter p ts))"
  by (cases "git_tags g") (simp_all add: getMatchingTags_def tryCatch_def bind_def)

lemma getMatchingBranches_cases:
  "getMatchingBranches g p =
     ([], Inr (case git_branchLocal g of Inl e \<Rightarrow> [] | Inr bs \<Rightarrow> filter p bs))"
  by (cases "git_branchLocal g") (simp_all add: getMatchingBranches_def tryCatch_def bind_def)

lemma fst_getRepoInfo: "fst (getRepoInfo g) = []"
  by (cases "git_getRemotes g"; cases "git_status g")
     (simp_all add: getRepoInfo_def tryCatch_def bind_def Let_def split: error.splits)

text \<open>
  C10. When the underlying git query fails, \<^verbatim>\<open>getMatchingTags\<close> and
  \<^verbatim>\<open>getMatchingBranches\<close> return the empty list and \<^verbatim>\<open>branchExists\<close> and
  \<^verbatim>\<open>remoteBranchExists\<close> return false, for every pattern and every name; none of
  the four ever throws.
\<close>

theorem queries_degrade:
  "(isl (git_tags g) \<longrightarrow> getMatchingTags g p = ([], Inr [])) \<and>
   (isl (git_branchLocal g) \<longrightarrow>
      getMatchingBranches g p = ([], Inr []) \<and> branchExists g b = ([], Inr False)) \<and>
   (isl (git_branchRemote g) \<longrightarrow> remoteBranchExists g b r = ([], Inr False)) \<and>
   \<not> isl (snd (getMatchingTags g p)) \<and> \<not> isl (snd (getMatchingBranches g p)) \<and>
   \<not> isl (snd (branchExists g b)) \<and> \<not> isl (snd (remoteBranchExists g b r))"
proof -
  have "isl (git_tags g) \<longrightarrow> getMatchingTags g p = ([], Inr [])"
    by (cases "git_tags g") (simp_all add: getMatchingTags_def tryCatch_def bind_def await_def ret_def)
  moreover have "isl (git_branchLocal g) \<longrightarrow> getMatchingBranches g p = ([], Inr [])"
    by (cases "git_branchLocal g")
       (simp_all add: getMatchingBranches_def tryCatch_def bind_def await_def ret_def)
  moreover have "isl (git_branchLocal g) \<longrightarrow> branchExists g b = ([], Inr False)"
    by (cases "git_branchLocal g")
       (simp_all add: branchExists_def tryCatch_def bind_def await_def ret_def)
  moreover have "isl (git_branchRemote g) \<longrightarrow> remoteBranchExists g b r = ([], Inr False)"
    by (cases "git_branchRemote g")
       (simp_all add: remoteBranchExists_def tryCatch_def bind_def await_def ret_def)
  moreover have "\<not> isl (snd (getMatchingTags g p))"
    by (cases "git_tags g") (simp_all add: getMatchingTags_def tryCatch_def bind_def await_def ret_def)
  moreover have "\<not> isl (snd (getMatchingBranches g p))"
    by (cases "git_branchLocal g")
       (simp_all add: getMatchingBranches_def tryCatch_def bind_def await_def ret_def)
  moreover have "\<not> isl (snd (branchExists g b))"
    by (cases "git_branchLocal g")
       (simp_all add: branchExists_def tryCatch_def bind_def await_def ret_def)
  moreover have "\<not> isl (snd (remoteBranchExists g b r))"
    by (cases "git_branchRemote g")
       (simp_all add: remoteBranchExists_def tryCatch_def bind_def await_def ret_def)
  ultimately show ?thesis by blast
qed

theorem queries_degrade_witness:
  "isl (git_tags ((exampleGit [] [])\<lparr>git_tags := Inl (Error ''not a git repository'')\<rparr>)) \<and>
   getMatchingTags ((exampleGit [] [])\<lparr>git_tags := Inl (Error ''not a git repository'')\<rparr>)
     (prefix ''v2024'') = ([], Inr []) \<and>
   isl (git_branchLocal ((exampleGit [] [])\<lparr>git_branchLocal := Inl (Error ''not a git repository'')\<rparr>)) \<and>
   getMatchingBranches ((exampleGit [] [])\<lparr>git_branchLocal := Inl (Error ''not a git repository'')\<rparr>)
     (prefix ''release'') = ([], Inr []) \<and>
   branchExists ((exampleGit [] [])\<lparr>git_branchLocal := Inl (Error ''not a git repository'')\<rparr>)
     ''main'' = ([], Inr False) \<and>
   isl (git_branchRemote ((exampleGit [] [])\<lparr>git_branchRemote := Inl (Error ''no remote'')\<rparr>)) \<and>
   remoteBranchExists ((exampleGit [] [])\<lparr>git_branchRemote := Inl (Error ''no remote'')\<rparr>)
     ''main'' ''origin'' = ([], Inr False)"
  using queries_degrade[of "(exampleGit [] [])\<lparr>git_tags := Inl (Error ''not a git repository'')\<rparr>"
          "prefix ''v2024''" "''main''" "''origin''"]
        queries_degrade[of "(exampleGit [] [])\<lparr>git_branchLocal := Inl (Error ''not a git repository'')\<rparr>"
          "prefix ''release''" "''main''" "''origin''"]
        queries_degrade[of "(exampleGit [] [])\<lparr>git_branchRemote := Inl (Error ''no remote'')\<rparr>"
          "prefix ''release''" "''main''" "''origin''"]
  by (simp add: exampleGit_def)

section \<open>Properties of the \<^verbatim>\<open>create\<close> command\<close>

subsection \<open>The run up to the branch name\<close>

lemma reaches_bind:
  assumes "list_all early (fst m)" and "\<And>v. snd m = Inr v \<Longrightarrow> reaches w options (f v)"
  shows "reaches w options (bind m f)"
proof (cases "snd m")
  case (Inl e)
  then show ?thesis using assms(1) by (simp add: bind_Inl reaches_def)
next
  case (Inr v)
  from assms(2)[OF Inr] show ?thesis unfolding reaches_def
  proof (elim disjE exE conjE)
    assume "list_all early (fst (f v))" "isl (snd (f v))"
    then show "(list_all early (fst (bind m f)) \<and> isl (snd (bind m f))) \<or>
      (\<exists>t config finalVersion. list_all early t \<and> configured w options config \<and>
         bind m f = (t @ [ConsoleLog (''Branch name: '' @ ''release/v'' @ finalVersion)] @
                fst (checkAndCreate w options config (''release/v'' @ finalVersion) finalVersion),
              snd (checkAndCreate w options config (''release/v'' @ finalVersion) finalVersion)))"
      using assms(1) Inr by (simp add: bind_Inr)
  next
    fix t config finalVersion
    assume h: "list_all early t" "configured w options config"
      "f v = (t @ [ConsoleLog (''Branch name: '' @ ''release/v'' @ finalVersion)] @
                fst (checkAndCreate w options config (''release/v'' @ finalVersion) finalVersion),
              snd (checkAndCreate w options config (''release/v'' @ finalVersion) finalVersion))"
    have "list_all early (fst m @ t)" using assms(1) h(1) by simp
    moreover have "bind m f = ((fst m @ t) @ [ConsoleLog (''Branch name: '' @ ''release/v'' @ finalVersion)] @
                fst (checkAndCreate w options config (''release/v'' @ finalVersion) finalVersion),
              snd (checkAndCreate w options config (''release/v'' @ finalVersion) finalVersion))"
      using Inr h(3) by (simp add: bind_Inr)
    ultimately show "(list_all early (fst (bind m f)) \<and> isl (snd (bind m f))) \<or>
      (\<exists>t config finalVersion. list_all early t \<and> configured w options config \<and>
         bind m f = (t @ [ConsoleLog (''Branch name: '' @ ''release/v'' @ finalVersion)] @
                fst (checkAndCreate w options config (''release/v'' @ finalVersion) finalVersion),
              snd (checkAndCreate w options config (''release/v'' @ finalVersion) finalVersion)))"
      using h(2) by blast
  qed
qed

lemma reaches_throw: "reaches w options (throw s)"
  by (simp add: reaches_def)

lemma reaches_if: "(c \<Longrightarrow> reaches w options a) \<Longrightarrow> (\<not> c \<Longrightarrow> reaches w options b) \<Longrightarrow> reaches w options (if c then a else b)"
  by simp

lemma reaches_final:
  "configured w options config \<Longrightarrow>
   reaches w options
     (bind (emit (ConsoleLog (''Branch name: '' @ ''release/v'' @ finalVersion)))
        (\<lambda>_. checkAndCreate w options config (''release/v'' @ finalVersion) finalVersion))"
  unfolding reaches_def
  apply (rule disjI2)
  apply (rule exI[of _ "[]"], rule exI[of _ config], rule exI[of _ finalVersion])
  apply (simp add: bind_Inr)
  done

lemma config_stage:
  "snd (if interactive options then runInteractiveMode (user w) options else ret options) = Inr config
   \<Longrightarrow> configured w options config"
  by (simp add: configured_def)

lemma configured_plain: "\<not> interactive options \<Longrightarrow> configured w options config \<Longrightarrow> config = options"
  by (simp add: configured_def)

lemma configured_answers:
  assumes "interactive options" and "configured w options config"
  shows "\<exists>answers.
           promptConfiguration (user w) (opt_format options) (baseBranch options) (push options)
             = Inr answers \<and>
           baseBranch config = ans_baseBranch answers \<and> push config = ans_push answers"
proof (cases "promptConfiguration (user w) (opt_format options) (baseBranch options) (push options)")
  case (Inl e)
  then show ?thesis using assms by (simp add: configured_def runInteractiveMode_def bind_def)
next
  case (Inr answers)
  then show ?thesis using assms
    by (auto simp: configured_def runInteractiveMode_def bind_def ret_def)
qed

lemma early_config_stage:
  "list_all early (fst (if interactive options then runInteractiveMode u options else ret options))"
  by (cases "promptConfiguration u (opt_format options) (baseBranch options) (push options)")
     (simp_all add: runInteractiveMode_def bind_def)

lemma createReleaseBranch_reaches: "reaches w options (createReleaseBranch w options)"
  unfolding createReleaseBranch_def Let_def
  apply (rule reaches_bind, simp add: isGitRepo_cases)
  apply (rule reaches_if, rule reaches_throw)
  apply (rule reaches_bind, simp add: fst_getRepoInfo)
  apply (rule reaches_bind, simp)
  apply (rule reaches_bind, simp)
  apply (rule reaches_bind, rule early_config_stage)
  apply (rule reaches_bind, simp)
  apply (rule reaches_bind, simp add: getMatchingTags_cases)
  apply (rule reaches_bind, simp)
  apply (rule reaches_bind, simp add: getMatchingBranches_cases)
  apply (rule reaches_bind, simp)
  apply (rule reaches_bind, simp)
  apply (rule reaches_bind, simp)
  apply (rule reaches_bind, simp)
  apply (rule reaches_final)
  apply (erule config_stage)
  done

subsection \<open>The checks, the confirmation, the creation\<close>

lemma late_bind:
  "list_all late (fst m) \<Longrightarrow> (\<And>v. list_all late (fst (f v))) \<Longrightarrow> list_all late (fst (bind m f))"
  by (simp add: fst_bind split: sum.splits)

lemma late_createBranch: "list_all late (fst (createBranch g b from))"
  unfolding createBranch_def
  by (intro late_bind) (auto simp: fst_bind split: option.splits sum.splits)

lemma late_pushBranch: "list_all late (fst (pushBranch g b r))"
  unfolding pushBranch_def
  by (intro late_bind) simp_all

lemma late_createAndPush: "list_all late (fst (createAndPush w config b fv))"
  unfolding createAndPush_def
  by (intro late_bind late_createBranch) (simp_all add: fst_bind late_pushBranch split: sum.splits)

text \<open>
  A call of \<^verbatim>\<open>createBranch\<close> or of \<^verbatim>\<open>pushBranch\<close> always shows in the trace as a
  git command, so a trace without such a command has neither call.
\<close>

lemma createBranch_mutates: "mutations (fst (createBranch g b from)) \<noteq> []"
  by (auto simp: createBranch_def mutations_def fst_bind split: option.splits sum.splits)

lemma pushBranch_mutates: "mutations (fst (pushBranch g b r)) \<noteq> []"
  by (auto simp: pushBranch_def mutations_def fst_bind split: option.splits sum.splits)

lemma checkAndCreate_local:
  assumes "snd (branchExists (git w) b) = Inr True"
  shows "checkAndCreate w options config b fv =
           ([], Inl (Error (''Branch '' @ b @ '' already exists locally'')))"
  using assms by (simp add: checkAndCreate_def branchExists_cases bind_def throw_def)

lemma checkAndCreate_remote:
  assumes "snd (branchExists (git w) b) \<noteq> Inr True"
      and "snd (remoteBranchExists (git w) b ''origin'') = Inr True"
  shows "checkAndCreate w options config b fv =
           ([], Inl (Error (''Branch '' @ b @ '' already exists on remote'')))"
  using assms
  by (simp add: checkAndCreate_def branchExists_cases remoteBranchExists_cases bind_def throw_def)

lemma checkAndCreate_free:
  assumes "snd (branchExists (git w) b) \<noteq> Inr True"
      and "snd (remoteBranchExists (git w) b ''origin'') \<noteq> Inr True"
  shows "checkAndCreate w options config b fv =
     (if dryRun options then
        ([ConsoleLog (CHR 0x0A # ''DRY RUN - No changes will be made''),
          ConsoleLog (''Would create branch: '' @ b),
          ConsoleLog (''From base branch: '' @ baseBranch config)] @
         (if push config then [ConsoleLog ''Would push to remote: origin''] else []), Inr ())
      else if \<not> interactive options then
        (case promptConfirm (user w) (''Create release branch '' @ b @ ''?'') of
           Inl e \<Rightarrow> ([AskConfirm (''Create release branch '' @ b @ ''?'')], Inl e)
         | Inr confirm \<Rightarrow>
             if \<not> confirm
             then ([AskConfirm (''Create release branch '' @ b @ ''?''), ConsoleLog ''Cancelled''], Inr ())
             else (AskConfirm (''Create release branch '' @ b @ ''?'') # fst (createAndPush w config b fv),
                   snd (createAndPush w config b fv)))
      else createAndPush w config b fv)"
  using assms
  by (simp add: checkAndCreate_def branchExists_cases remoteBranchExists_cases bind_def
        emit_def ret_def ask_def split: sum.splits)

lemma late_checkAndCreate: "list_all late (fst (checkAndCreate w options config b fv)) \<or>
   (\<exists>m rest. fst (checkAndCreate w options config b fv) = AskConfirm m # rest \<and> list_all late rest)"
proof (cases "snd (branchExists (git w) b) = Inr True")
  case True
  then show ?thesis by (simp add: checkAndCreate_local)
next
  case l: False
  show ?thesis
  proof (cases "snd (remoteBranchExists (git w) b ''origin'') = Inr True")
    case True
    then show ?thesis using l by (simp add: checkAndCreate_remote)
  next
    case False
    then show ?thesis using l late_createAndPush[of w config b fv]
      by (simp add: checkAndCreate_free split: sum.splits)
  qed
qed

lemma early_not_mutation: "early e \<Longrightarrow> \<not> mutation e"
  by (cases e) simp_all

lemma early_mutations: "list_all early t \<Longrightarrow> mutations t = []"
  by (induction t) (auto simp: mutations_def early_not_mutation)

lemma early_line:
  "list_all early t \<Longrightarrow> ConsoleLog line \<in> set t \<Longrightarrow> \<not> prefix ''Branch name: '' line"
  by (induction t) auto

lemma late_line:
  "list_all late t \<Longrightarrow> ConsoleLog line \<in> set t \<Longrightarrow> \<not> prefix ''Branch name: '' line"
  by (induction t) auto

lemma early_no_ask: "list_all early t \<Longrightarrow> AskConfirm m \<notin> set t"
  by (induction t) auto

lemma late_no_ask: "list_all late t \<Longrightarrow> AskConfirm m \<notin> set t"
  by (induction t) auto

lemma early_no_error: "list_all early t \<Longrightarrow> \<not> list_ex consoleError t"
proof (induction t)
  case Nil
  then show ?case by simp
next
  case (Cons e t)
  then show ?case by (cases e) simp_all
qed

lemma late_no_error: "list_all late t \<Longrightarrow> \<not> list_ex consoleError t"
proof (induction t)
  case Nil
  then show ?case by simp
next
  case (Cons e t)
  then show ?case by (cases e) simp_all
qed

lemma checkAndCreate_no_branch_line:
  "ConsoleLog (''Branch name: '' @ b) \<notin> set (fst (checkAndCreate w options config bn fv))"
  using late_checkAndCreate[of w options config bn fv]
  by (auto dest: late_line)

lemma early_calm: "list_all early t \<Longrightarrow> list_all calm t"
proof (induction t)
  case Nil
  then show ?case by simp
next
  case (Cons e t)
  then show ?case by (cases e) simp_all
qed

lemma calm_mutations: "list_all calm t \<Longrightarrow> mutations t = []"
proof (induction t)
  case Nil
  then show ?case by (simp add: mutations_def)
next
  case (Cons e t)
  then show ?case by (cases e) (simp_all add: mutations_def)
qed

lemma calm_no_error: "list_all calm t \<Longrightarrow> \<not> list_ex consoleError t"
proof (induction t)
  case Nil
  then show ?case by simp
next
  case (Cons e t)
  then show ?case by (cases e) simp_all
qed

lemma calm_no_ask: "list_all calm t \<Longrightarrow> AskConfirm m \<notin> set t"
  by (induction t) auto

lemma calm_not_mutation: "list_all calm t \<Longrightarrow> e \<in> set t \<Longrightarrow> \<not> mutation e"
proof (induction t)
  case Nil
  then show ?case by simp
next
  case (Cons x t)
  then show ?case by (cases x) auto
qed

lemma found_after:
  "pre @ e # post = a @ x # rest \<Longrightarrow> e \<notin> set a \<Longrightarrow> e \<noteq> x \<Longrightarrow> x \<in> set pre"
proof (induction a arbitrary: pre)
  case Nil
  then show ?case by (cases pre) auto
next
  case (Cons y ys)
  then show ?case by (cases pre) auto
qed

subsection \<open>The shapes of a run\<close>

lemma createAction_Inl:
  "snd (createReleaseBranch w options) = Inl (Error message) \<Longrightarrow>
   createAction w options =
     \<lparr>trace = fst (createReleaseBranch w options) @ [ConsoleError (''Error: '' @ message)],
      exitCode = 1\<rparr>"
  by (simp add: createAction_def)

lemma createAction_Inr:
  "snd (createReleaseBranch w options) = Inr u \<Longrightarrow>
   createAction w options = \<lparr>trace = fst (createReleaseBranch w options), exitCode = 0\<rparr>"
  by (simp add: createAction_def)

lemma createAction_early:
  assumes "list_all early (fst (createReleaseBranch w options))"
      and "isl (snd (createReleaseBranch w options))"
  shows "\<exists>message. createAction w options =
     \<lparr>trace = fst (createReleaseBranch w options) @ [ConsoleError (''Error: '' @ message)],
      exitCode = 1\<rparr>"
proof -
  from assms(2) obtain e where "snd (createReleaseBranch w options) = Inl e"
    by (cases "snd (createReleaseBranch w options)") auto
  then show ?thesis by (cases e) (auto simp: createAction_Inl)
qed

lemma createAction_shapes:
  "(\<exists>t message. list_all early t \<and>
       createAction w options = \<lparr>trace = t @ [ConsoleError (''Error: '' @ message)], exitCode = 1\<rparr>)
   \<or> (\<exists>t config fv. list_all early t \<and> configured w options config \<and>
        createReleaseBranch w options =
          (t @ [ConsoleLog (''Branch name: '' @ ''release/v'' @ fv)] @
             fst (checkAndCreate w options config (''release/v'' @ fv) fv),
           snd (checkAndCreate w options config (''release/v'' @ fv) fv)))"
  using createReleaseBranch_reaches[of w options] createAction_early[of w options]
  unfolding reaches_def by blast

lemma confirm_run_shapes:
  assumes ni: "\<not> interactive options" and nd: "\<not> dryRun options"
  shows "(\<exists>t line. list_all calm t \<and>
            createAction w options = \<lparr>trace = t @ [ConsoleError line], exitCode = 1\<rparr>)
       \<or> (\<exists>t m e line. list_all calm t \<and> promptConfirm (user w) m = Inl e \<and>
            createAction w options = \<lparr>trace = t @ [AskConfirm m, ConsoleError line], exitCode = 1\<rparr>)
       \<or> (\<exists>t m. list_all calm t \<and> promptConfirm (user w) m = Inr False \<and>
            createAction w options =
              \<lparr>trace = t @ [AskConfirm m, ConsoleLog ''Cancelled''], exitCode = 0\<rparr>)
       \<or> (\<exists>t m rest code. list_all calm t \<and> promptConfirm (user w) m = Inr True \<and>
            (\<forall>m'. AskConfirm m' \<notin> set rest) \<and>
            createAction w options = \<lparr>trace = t @ AskConfirm m # rest, exitCode = code\<rparr>)"
  using createAction_shapes[of w options]
proof (elim disjE exE conjE)
  fix t message
  assume t: "list_all early t"
    and r: "createAction w options = \<lparr>trace = t @ [ConsoleError (''Error: '' @ message)], exitCode = 1\<rparr>"
  then show ?thesis using early_calm[OF t] by blast
next
  fix t config fv
  let ?bn = "''release/v'' @ fv"
  let ?cc = "checkAndCreate w options config ?bn fv"
  let ?t = "t @ [ConsoleLog (''Branch name: '' @ ?bn)]"
  let ?m = "''Create release branch '' @ ?bn @ ''?''"
  assume t: "list_all early t"
    and c: "configured w options config"
    and r: "createReleaseBranch w options = (t @ [ConsoleLog (''Branch name: '' @ ?bn)] @ fst ?cc, snd ?cc)"
  have calm: "list_all calm ?t" using early_calm[OF t] by simp
  consider (local) "snd (branchExists (git w) ?bn) = Inr True"
    | (remote) "snd (branchExists (git w) ?bn) \<noteq> Inr True"
               "snd (remoteBranchExists (git w) ?bn ''origin'') = Inr True"
    | (free) "snd (branchExists (git w) ?bn) \<noteq> Inr True"
             "snd (remoteBranchExists (git w) ?bn ''origin'') \<noteq> Inr True"
    by blast
  then show ?thesis
  proof cases
    case local
    then have "createAction w options =
        \<lparr>trace = ?t @ [ConsoleError (''Error: '' @ ''Branch '' @ ?bn @ '' already exists locally'')],
         exitCode = 1\<rparr>"
      using r by (simp add: checkAndCreate_local createAction_def)
    then show ?thesis using calm by blast
  next
    case remote
    then have "createAction w options =
        \<lparr>trace = ?t @ [ConsoleError (''Error: '' @ ''Branch '' @ ?bn @ '' already exists on remote'')],
         exitCode = 1\<rparr>"
      using r by (simp add: checkAndCreate_remote createAction_def)
    then show ?thesis using calm by blast
  next
    case free
    show ?thesis
    proof (cases "promptConfirm (user w) ?m")
      case (Inl e)
      obtain message where e: "e = Error message" by (cases e)
      have "createAction w options =
          \<lparr>trace = ?t @ [AskConfirm ?m, ConsoleError (''Error: '' @ message)], exitCode = 1\<rparr>"
        using r free ni nd Inl e by (simp add: checkAndCreate_free createAction_def)
      then show ?thesis using calm Inl by blast
    next
      case (Inr confirm)
      show ?thesis
      proof (cases confirm)
        case False
        have "createAction w options =
            \<lparr>trace = ?t @ [AskConfirm ?m, ConsoleLog ''Cancelled''], exitCode = 0\<rparr>"
          using r free ni nd Inr False by (simp add: checkAndCreate_free createAction_def)
        moreover have "promptConfirm (user w) ?m = Inr False" using Inr False by simp
        ultimately show ?thesis using calm by blast
      next
        case True
        let ?cap = "createAndPush w config ?bn fv"
        have cc: "?cc = (AskConfirm ?m # fst ?cap, snd ?cap)"
          using free ni nd Inr True by (simp add: checkAndCreate_free)
        have late: "list_all late (fst ?cap)" by (rule late_createAndPush)
        have "\<exists>rest code. (\<forall>m'. AskConfirm m' \<notin> set rest) \<and>
            createAction w options = \<lparr>trace = ?t @ AskConfirm ?m # rest, exitCode = code\<rparr>"
        proof (cases "snd ?cap")
          case (Inl e)
          obtain message where e: "e = Error message" by (cases e)
          have "createAction w options =
              \<lparr>trace = ?t @ AskConfirm ?m # (fst ?cap @ [ConsoleError (''Error: '' @ message)]),
               exitCode = 1\<rparr>"
            using r cc Inl e by (simp add: createAction_def)
          moreover have "\<forall>m'. AskConfirm m' \<notin> set (fst ?cap @ [ConsoleError (''Error: '' @ message)])"
            using late_no_ask[OF late] by simp
          ultimately show ?thesis by blast
        next
          case (Inr u)
          have "createAction w options = \<lparr>trace = ?t @ AskConfirm ?m # fst ?cap, exitCode = 0\<rparr>"
            using r cc Inr by (simp add: createAction_def)
          moreover have "\<forall>m'. AskConfirm m' \<notin> set (fst ?cap)"
            using late_no_ask[OF late] by simp
          ultimately show ?thesis by blast
        qed
        moreover have "promptConfirm (user w) ?m = Inr True" using Inr True by simp
        ultimately show ?thesis using calm by blast
      qed
    qed
  qed
qed

subsection \<open>Example runs\<close>

lemma lower_default: "toLowerCase ''YYYY.MM.DD'' = ''yyyy.mm.dd''"
  by code_simp

lemma example_base:
  "generate (momentFormat other) (newCalVerGenerator (Some ''YYYY.MM.DD'') None) exampleNow
     = ''2024.01.15''"
  by (simp add: exampleNow_def generate_def newCalVerGenerator_def orDefault_def lower_default momentFormat_def
        token_YYYY_def token_MM_def token_DD_def zeroFill_def decimal.simps digitChar_def)


lemma bind_eval:
  "bind (t, Inl e) f = (t, Inl e)"
  "bind (t, Inr v) f = (case f v of (t', r) \<Rightarrow> (t @ t', r))"
  by (simp_all add: bind_def split: prod.splits)

lemma tryCatch_eval:
  "tryCatch (t, Inr v) h = (t, Inr v)"
  "tryCatch (t, Inl e) h = (case h e of (t', r) \<Rightarrow> (t @ t', r))"
  by (simp_all add: tryCatch_def split: prod.splits)

lemma createAction_eval:
  "createReleaseBranch w options = (t, r) \<Longrightarrow>
   createAction w options =
     (case r of
        Inl error \<Rightarrow> (case error of Error message \<Rightarrow>
          \<lparr>trace = t @ [ConsoleError (''Error: '' @ message)], exitCode = 1\<rparr>)
      | Inr u \<Rightarrow> \<lparr>trace = t, exitCode = 0\<rparr>)"
  by (simp add: createAction_def split: sum.splits error.splits)

lemmas run_simps =
  createReleaseBranch_def checkAndCreate_def createAndPush_def
  createBranch_def pushBranch_def runInteractiveMode_def
  isGitRepo_cases branchExists_cases remoteBranchExists_cases getMatchingTags_cases
  getMatchingBranches_cases getRepoInfo_def
  bind_eval tryCatch_eval ret_def throw_def emit_def await_def ask_def command_def
  exampleWorld_def exampleGit_def exampleUser_def exampleOptions_def exampleRegExp_def
  example_base example_increment example_no_increment escapeDots_def stripV_def
  stripRelease_def Let_def

lemma body_remote_exists:
  "createReleaseBranch
     (exampleWorld (exampleGit [] [''origin/main'', ''origin/release/v2024.01.15'']) True)
     (exampleOptions False False) =
   ([ConsoleLog ''Repository: main branch'',
     ConsoleLog (CHR 0x0A # ''Generated base version: 2024.01.15''),
     ConsoleLog (CHR 0x0A # ''Final version: 2024.01.15''),
     ConsoleLog ''Branch name: release/v2024.01.15''],
    Inl (Error ''Branch release/v2024.01.15 already exists on remote''))"
  by (simp add: run_simps)

lemma run_remote_exists:
  "createAction (exampleWorld (exampleGit [] [''origin/main'', ''origin/release/v2024.01.15'']) True)
     (exampleOptions False False) =
   \<lparr>trace = [ConsoleLog ''Repository: main branch'',
              ConsoleLog (CHR 0x0A # ''Generated base version: 2024.01.15''),
              ConsoleLog (CHR 0x0A # ''Final version: 2024.01.15''),
              ConsoleLog ''Branch name: release/v2024.01.15'',
              ConsoleError ''Error: Branch release/v2024.01.15 already exists on remote''],
    exitCode = 1\<rparr>"
  by (simp add: createAction_eval[OF body_remote_exists])

lemma body_dry:
  "createReleaseBranch (exampleWorld (exampleGit [''v2024.01.15''] [''origin/main'']) True)
     (exampleOptions True True) =
   ([ConsoleLog ''Repository: main branch'',
     ConsoleLog (CHR 0x0A # ''Generated base version: 2024.01.15''),
     ConsoleLog ''Found existing tags: v2024.01.15'',
     ConsoleLog (CHR 0x0A # ''Final version: 2024.01.15.16''),
     ConsoleLog ''Branch name: release/v2024.01.15.16'',
     ConsoleLog (CHR 0x0A # ''DRY RUN - No changes will be made''),
     ConsoleLog ''Would create branch: release/v2024.01.15.16'',
     ConsoleLog ''From base branch: main'',
     ConsoleLog ''Would push to remote: origin''], Inr ())"
  by (simp add: run_simps)

lemma run_dry:
  "createAction (exampleWorld (exampleGit [''v2024.01.15''] [''origin/main'']) True)
     (exampleOptions True True) =
   \<lparr>trace = [ConsoleLog ''Repository: main branch'',
              ConsoleLog (CHR 0x0A # ''Generated base version: 2024.01.15''),
              ConsoleLog ''Found existing tags: v2024.01.15'',
              ConsoleLog (CHR 0x0A # ''Final version: 2024.01.15.16''),
              ConsoleLog ''Branch name: release/v2024.01.15.16'',
              ConsoleLog (CHR 0x0A # ''DRY RUN - No changes will be made''),
              ConsoleLog ''Would create branch: release/v2024.01.15.16'',
              ConsoleLog ''From base branch: main'',
              ConsoleLog ''Would push to remote: origin''],
    exitCode = 0\<rparr>"
  by (simp add: createAction_eval[OF body_dry])

lemma body_declined:
  "createReleaseBranch (exampleWorld (exampleGit [''v2024.01.15''] [''origin/main'']) False)
     (exampleOptions False True) =
   ([ConsoleLog ''Repository: main branch'',
     ConsoleLog (CHR 0x0A # ''Generated base version: 2024.01.15''),
     ConsoleLog ''Found existing tags: v2024.01.15'',
     ConsoleLog (CHR 0x0A # ''Final version: 2024.01.15.16''),
     ConsoleLog ''Branch name: release/v2024.01.15.16'',
     AskConfirm ''Create release branch release/v2024.01.15.16?'',
     ConsoleLog ''Cancelled''], Inr ())"
  by (simp add: run_simps)

lemma run_declined:
  "createAction (exampleWorld (exampleGit [''v2024.01.15''] [''origin/main'']) False)
     (exampleOptions False True) =
   \<lparr>trace = [ConsoleLog ''Repository: main branch'',
              ConsoleLog (CHR 0x0A # ''Generated base version: 2024.01.15''),
              ConsoleLog ''Found existing tags: v2024.01.15'',
              ConsoleLog (CHR 0x0A # ''Final version: 2024.01.15.16''),
              ConsoleLog ''Branch name: release/v2024.01.15.16'',
              AskConfirm ''Create release branch release/v2024.01.15.16?'',
              ConsoleLog ''Cancelled''],
    exitCode = 0\<rparr>"
  by (simp add: createAction_eval[OF body_declined])

lemma body_accepted:
  "createReleaseBranch (exampleWorld (exampleGit [''v2024.01.15''] [''origin/main'']) True)
     (exampleOptions False True) =
   ([ConsoleLog ''Repository: main branch'',
     ConsoleLog (CHR 0x0A # ''Generated base version: 2024.01.15''),
     ConsoleLog ''Found existing tags: v2024.01.15'',
     ConsoleLog (CHR 0x0A # ''Final version: 2024.01.15.16''),
     ConsoleLog ''Branch name: release/v2024.01.15.16'',
     AskConfirm ''Create release branch release/v2024.01.15.16?'',
     ConsoleLog (CHR 0x0A # ''Creating release branch...''),
     GitCheckout ''main'', GitPull, GitCheckoutLocalBranch ''release/v2024.01.15.16'',
     ConsoleLog ''Created and switched to branch: release/v2024.01.15.16'',
     ConsoleLog ''Pushing to remote...'',
     GitPush [''-u'', ''origin'', ''release/v2024.01.15.16''],
     ConsoleLog ''Pushed branch to origin/release/v2024.01.15.16'',
     ConsoleLog (CHR 0x0A # ''Release branch created successfully!''),
     ConsoleLog (CHR 0x0A # ''Next steps:''),
     ConsoleLog ''  1. Make your changes on this branch'',
     ConsoleLog ''  2. Run your QA pipeline'',
     ConsoleLog ''  3. Create a tag: git tag v2024.01.15.16'',
     ConsoleLog ''  4. Push tag: git push origin v2024.01.15.16''], Inr ())"
  by (simp add: run_simps)

lemma run_accepted:
  "createAction (exampleWorld (exampleGit [''v2024.01.15''] [''origin/main'']) True)
     (exampleOptions False True) =
   \<lparr>trace = [ConsoleLog ''Repository: main branch'',
              ConsoleLog (CHR 0x0A # ''Generated base version: 2024.01.15''),
              ConsoleLog ''Found existing tags: v2024.01.15'',
              ConsoleLog (CHR 0x0A # ''Final version: 2024.01.15.16''),
              ConsoleLog ''Branch name: release/v2024.01.15.16'',
              AskConfirm ''Create release branch release/v2024.01.15.16?'',
              ConsoleLog (CHR 0x0A # ''Creating release branch...''),
              GitCheckout ''main'', GitPull, GitCheckoutLocalBranch ''release/v2024.01.15.16'',
              ConsoleLog ''Created and switched to branch: release/v2024.01.15.16'',
              ConsoleLog ''Pushing to remote...'',
              GitPush [''-u'', ''origin'', ''release/v2024.01.15.16''],
              ConsoleLog ''Pushed branch to origin/release/v2024.01.15.16'',
              ConsoleLog (CHR 0x0A # ''Release branch created successfully!''),
              ConsoleLog (CHR 0x0A # ''Next steps:''),
              ConsoleLog ''  1. Make your changes on this branch'',
              ConsoleLog ''  2. Run your QA pipeline'',
              ConsoleLog ''  3. Create a tag: git tag v2024.01.15.16'',
              ConsoleLog ''  4. Push tag: git push origin v2024.01.15.16''],
    exitCode = 0\<rparr>"
  by (simp add: createAction_eval[OF body_accepted])

lemma run_accepted_mutates:
  "mutations (fst (createReleaseBranch
      (exampleWorld (exampleGit [''v2024.01.15''] [''origin/main'']) True)
      (exampleOptions False True))) =
   [GitCheckout ''main'', GitPull, GitCheckoutLocalBranch ''release/v2024.01.15.16'',
    GitPush [''-u'', ''origin'', ''release/v2024.01.15.16'']]"
  by (simp add: body_accepted mutations_def)

subsection \<open>Existing branch, dry run, confirmation\<close>

text \<open>
  C7. If the branch name the run has computed, the one it reports on the console,
  exists locally or on the remote according to the two existence queries, the run
  is fatal: the exit status is 1, the last event is a line on the error stream, the
  only one, saying that the branch already exists, and no git command that writes
  was issued, so neither \<^verbatim>\<open>createBranch\<close> nor \<^verbatim>\<open>pushBranch\<close> was called.
\<close>

theorem existing_branch_is_fatal:
  assumes line: "ConsoleLog (''Branch name: '' @ b) \<in> set (trace (createAction w options))"
      and ex: "snd (branchExists (git w) b) = Inr True \<or>
               snd (remoteBranchExists (git w) b ''origin'') = Inr True"
  shows "exitCode (createAction w options) = 1 \<and>
         mutations (trace (createAction w options)) = [] \<and>
         (\<exists>t place. trace (createAction w options) =
                      t @ [ConsoleError (''Error: Branch '' @ b @ '' already exists '' @ place)] \<and>
                    (place = ''locally'' \<or> place = ''on remote'') \<and>
                    \<not> list_ex consoleError t)"
  using createAction_shapes[of w options]
proof (elim disjE exE conjE)
  fix t message
  assume t: "list_all early t"
    and r: "createAction w options = \<lparr>trace = t @ [ConsoleError (''Error: '' @ message)], exitCode = 1\<rparr>"
  from line r t have False by (auto dest: early_line)
  then show ?thesis ..
next
  fix t config fv
  let ?bn = "''release/v'' @ fv"
  let ?cc = "checkAndCreate w options config ?bn fv"
  assume t: "list_all early t"
    and r: "createReleaseBranch w options = (t @ [ConsoleLog (''Branch name: '' @ ?bn)] @ fst ?cc, snd ?cc)"
  have sub: "set (trace (createAction w options)) \<subseteq>
      set t \<union> {ConsoleLog (''Branch name: '' @ ?bn)} \<union> set (fst ?cc) \<union> {e. consoleError e}"
    using r by (auto simp: createAction_def split: sum.splits error.splits)
  have "ConsoleLog (''Branch name: '' @ b) \<in>
      set t \<union> {ConsoleLog (''Branch name: '' @ ?bn)} \<union> set (fst ?cc) \<union> {e. consoleError e}"
    using line sub by blast
  then have "ConsoleLog (''Branch name: '' @ b) \<in> set t \<or> b = ?bn \<or>
      ConsoleLog (''Branch name: '' @ b) \<in> set (fst ?cc)"
    by auto
  moreover have "ConsoleLog (''Branch name: '' @ b) \<notin> set t"
    using t by (auto dest: early_line)
  ultimately have b: "b = ?bn"
    using checkAndCreate_no_branch_line[of b w options config ?bn fv] by blast
  with ex obtain place where cc: "?cc = ([], Inl (Error (''Branch '' @ b @ '' already exists '' @ place)))"
      and place: "place = ''locally'' \<or> place = ''on remote''"
    using checkAndCreate_local[of w ?bn options config fv]
          checkAndCreate_remote[of w ?bn options config fv] by fastforce
  have "createAction w options =
      \<lparr>trace = (t @ [ConsoleLog (''Branch name: '' @ ?bn)]) @
                 [ConsoleError (''Error: Branch '' @ b @ '' already exists '' @ place)],
       exitCode = 1\<rparr>"
    using r cc by (simp add: createAction_def)
  moreover have "mutations (t @ [ConsoleLog (''Branch name: '' @ ?bn)]) = []"
    using early_mutations[OF t] by (simp add: mutations_def)
  moreover have "\<not> list_ex consoleError (t @ [ConsoleLog (''Branch name: '' @ ?bn)])"
    using early_no_error[OF t] by simp
  ultimately have "exitCode (createAction w options) = 1"
    and "mutations (trace (createAction w options)) = []"
    and "trace (createAction w options) =
           (t @ [ConsoleLog (''Branch name: '' @ ?bn)]) @
           [ConsoleError (''Error: Branch '' @ b @ '' already exists '' @ place)]"
    by (simp_all add: mutations_def)
  then show ?thesis
    using place \<open>\<not> list_ex consoleError (t @ [ConsoleLog (''Branch name: '' @ ?bn)])\<close> by blast
qed

theorem existing_branch_is_fatal_witness:
  "ConsoleLog (''Branch name: '' @ ''release/v2024.01.15'') \<in> set (trace (createAction
      (exampleWorld (exampleGit [] [''origin/main'', ''origin/release/v2024.01.15'']) True)
      (exampleOptions False False))) \<and>
   snd (remoteBranchExists
      (git (exampleWorld (exampleGit [] [''origin/main'', ''origin/release/v2024.01.15'']) True))
      ''release/v2024.01.15'' ''origin'') = Inr True \<and>
   exitCode (createAction
      (exampleWorld (exampleGit [] [''origin/main'', ''origin/release/v2024.01.15'']) True)
      (exampleOptions False False)) = 1 \<and>
   mutations (trace (createAction
      (exampleWorld (exampleGit [] [''origin/main'', ''origin/release/v2024.01.15'']) True)
      (exampleOptions False False))) = []"
proof -
  let ?w = "exampleWorld (exampleGit [] [''origin/main'', ''origin/release/v2024.01.15'']) True"
  let ?o = "exampleOptions False False"
  have line: "ConsoleLog (''Branch name: '' @ ''release/v2024.01.15'') \<in> set (trace (createAction ?w ?o))"
    by (simp add: run_remote_exists)
  have ex: "snd (remoteBranchExists (git ?w) ''release/v2024.01.15'' ''origin'') = Inr True"
    by (simp add: remoteBranchExists_cases exampleWorld_def exampleGit_def)
  from existing_branch_is_fatal[OF line disjI2[OF ex]] line ex show ?thesis by blast
qed

text \<open>
  C8. In a dry run no git command that writes is issued, whatever the push flag and
  the other options are: neither \<^verbatim>\<open>createBranch\<close> nor \<^verbatim>\<open>pushBranch\<close> is called.
  A dry run that ends with status 0 ends right after the branch name was computed:
  the line with the branch name is followed by the dry run notice, the branch that
  would be created, the same one, and the base branch it would be created from, and
  then by the notice that it would be pushed exactly when it would. The base branch
  and the push flag are those of the options, or in an interactive run those the
  user answered.
\<close>

theorem dry_run_changes_nothing:
  assumes dry: "dryRun options"
  shows "mutations (trace (createAction w options)) = [] \<and>
         (exitCode (createAction w options) = 0 \<longrightarrow>
            (\<exists>pre b base willPush.
               trace (createAction w options) =
                 pre @ [ConsoleLog (''Branch name: '' @ b),
                        ConsoleLog (CHR 0x0A # ''DRY RUN - No changes will be made''),
                        ConsoleLog (''Would create branch: '' @ b),
                        ConsoleLog (''From base branch: '' @ base)] @
                       (if willPush then [ConsoleLog ''Would push to remote: origin''] else []) \<and>
               (\<not> interactive options \<longrightarrow>
                  base = baseBranch options \<and> willPush = push options) \<and>
               (interactive options \<longrightarrow>
                  (\<exists>answers.
                     promptConfiguration (user w)
                       (opt_format options) (baseBranch options) (push options) = Inr answers \<and>
                     base = ans_baseBranch answers \<and> willPush = ans_push answers))))"
  using createAction_shapes[of w options]
proof (elim disjE exE conjE)
  fix t message
  assume t: "list_all early t"
    and r: "createAction w options = \<lparr>trace = t @ [ConsoleError (''Error: '' @ message)], exitCode = 1\<rparr>"
  show ?thesis using r early_mutations[OF t] by (simp add: mutations_def)
next
  fix t config fv
  let ?bn = "''release/v'' @ fv"
  let ?cc = "checkAndCreate w options config ?bn fv"
  assume t: "list_all early t"
    and c: "configured w options config"
    and r: "createReleaseBranch w options = (t @ [ConsoleLog (''Branch name: '' @ ?bn)] @ fst ?cc, snd ?cc)"
  have m: "mutations t = []" by (rule early_mutations[OF t])
  consider (local) "snd (branchExists (git w) ?bn) = Inr True"
    | (remote) "snd (branchExists (git w) ?bn) \<noteq> Inr True"
               "snd (remoteBranchExists (git w) ?bn ''origin'') = Inr True"
    | (free) "snd (branchExists (git w) ?bn) \<noteq> Inr True"
             "snd (remoteBranchExists (git w) ?bn ''origin'') \<noteq> Inr True"
    by blast
  then show ?thesis
  proof cases
    case local
    then show ?thesis using r m
      by (simp add: checkAndCreate_local createAction_def mutations_def)
  next
    case remote
    then show ?thesis using r m
      by (simp add: checkAndCreate_remote createAction_def mutations_def)
  next
    case free
    let ?post = "if push config then [ConsoleLog ''Would push to remote: origin''] else []"
    have cc: "?cc = ([ConsoleLog (CHR 0x0A # ''DRY RUN - No changes will be made''),
          ConsoleLog (''Would create branch: '' @ ?bn),
          ConsoleLog (''From base branch: '' @ baseBranch config)] @ ?post, Inr ())"
      using free dry by (simp add: checkAndCreate_free)
    have run: "createAction w options =
        \<lparr>trace = t @ [ConsoleLog (''Branch name: '' @ ?bn),
                        ConsoleLog (CHR 0x0A # ''DRY RUN - No changes will be made''),
                        ConsoleLog (''Would create branch: '' @ ?bn),
                        ConsoleLog (''From base branch: '' @ baseBranch config)] @ ?post,
         exitCode = 0\<rparr>"
      using r cc by (simp add: createAction_def)
    have "mutations (trace (createAction w options)) = []"
      using run m by (simp add: mutations_def)
    moreover have "\<exists>pre b base willPush.
               trace (createAction w options) =
                 pre @ [ConsoleLog (''Branch name: '' @ b),
                        ConsoleLog (CHR 0x0A # ''DRY RUN - No changes will be made''),
                        ConsoleLog (''Would create branch: '' @ b),
                        ConsoleLog (''From base branch: '' @ base)] @
                       (if willPush then [ConsoleLog ''Would push to remote: origin''] else []) \<and>
               (\<not> interactive options \<longrightarrow>
                  base = baseBranch options \<and> willPush = push options) \<and>
               (interactive options \<longrightarrow>
                  (\<exists>answers.
                     promptConfiguration (user w)
                       (opt_format options) (baseBranch options) (push options) = Inr answers \<and>
                     base = ans_baseBranch answers \<and> willPush = ans_push answers))"
    proof (intro exI conjI)
      show "trace (createAction w options) =
                 t @ [ConsoleLog (''Branch name: '' @ ?bn),
                        ConsoleLog (CHR 0x0A # ''DRY RUN - No changes will be made''),
                        ConsoleLog (''Would create branch: '' @ ?bn),
                        ConsoleLog (''From base branch: '' @ baseBranch config)] @
                     (if push config then [ConsoleLog ''Would push to remote: origin''] else [])"
        using run by simp
      show "\<not> interactive options \<longrightarrow>
              baseBranch config = baseBranch options \<and> push config = push options"
        using c configured_plain by blast
      show "interactive options \<longrightarrow>
              (\<exists>answers.
                 promptConfiguration (user w)
                   (opt_format options) (baseBranch options) (push options) = Inr answers \<and>
                 baseBranch config = ans_baseBranch answers \<and> push config = ans_push answers)"
        using c configured_answers by blast
    qed
    ultimately show ?thesis by blast
  qed
qed

lemma body_dry_interactive:
  "createReleaseBranch
     \<lparr>git = exampleGit [''v2024.01.15''] [''origin/main''], user = choosingUser,
      now = exampleNow, regExp = exampleRegExp, customFormat = (\<lambda>template m. template)\<rparr>
     \<lparr>opt_format = ''YYYY.MM.DD'', baseBranch = ''main'', push = False, dryRun = True,
      interactive = True\<rparr> =
   ([ConsoleLog ''Repository: main branch'',
     AskConfiguration,
     ConsoleLog (CHR 0x0A # ''Generated base version: 2024.01.15''),
     ConsoleLog ''Found existing tags: v2024.01.15'',
     ConsoleLog (CHR 0x0A # ''Final version: 2024.01.15.16''),
     ConsoleLog ''Branch name: release/v2024.01.15.16'',
     ConsoleLog (CHR 0x0A # ''DRY RUN - No changes will be made''),
     ConsoleLog ''Would create branch: release/v2024.01.15.16'',
     ConsoleLog ''From base branch: develop'',
     ConsoleLog ''Would push to remote: origin''], Inr ())"
  by (simp add: run_simps choosingUser_def)

theorem dry_run_changes_nothing_witness:
  "dryRun (exampleOptions True True) \<and>
   mutations (trace (createAction
      (exampleWorld (exampleGit [''v2024.01.15''] [''origin/main'']) True)
      (exampleOptions True True))) = [] \<and>
   exitCode (createAction
      (exampleWorld (exampleGit [''v2024.01.15''] [''origin/main'']) True)
      (exampleOptions True True)) = 0 \<and>
   trace (createAction
      (exampleWorld (exampleGit [''v2024.01.15''] [''origin/main'']) True)
      (exampleOptions True True)) =
     [ConsoleLog ''Repository: main branch'',
      ConsoleLog (CHR 0x0A # ''Generated base version: 2024.01.15''),
      ConsoleLog ''Found existing tags: v2024.01.15'',
      ConsoleLog (CHR 0x0A # ''Final version: 2024.01.15.16''),
      ConsoleLog ''Branch name: release/v2024.01.15.16'',
      ConsoleLog (CHR 0x0A # ''DRY RUN - No changes will be made''),
      ConsoleLog ''Would create branch: release/v2024.01.15.16'',
      ConsoleLog ''From base branch: main'',
      ConsoleLog ''Would push to remote: origin''] \<and>
   mutations (trace (createAction
      \<lparr>git = exampleGit [''v2024.01.15''] [''origin/main''], user = choosingUser,
       now = exampleNow, regExp = exampleRegExp, customFormat = (\<lambda>template m. template)\<rparr>
      \<lparr>opt_format = ''YYYY.MM.DD'', baseBranch = ''main'', push = False, dryRun = True,
       interactive = True\<rparr>)) = [] \<and>
   trace (createAction
      \<lparr>git = exampleGit [''v2024.01.15''] [''origin/main''], user = choosingUser,
       now = exampleNow, regExp = exampleRegExp, customFormat = (\<lambda>template m. template)\<rparr>
      \<lparr>opt_format = ''YYYY.MM.DD'', baseBranch = ''main'', push = False, dryRun = True,
       interactive = True\<rparr>) =
     [ConsoleLog ''Repository: main branch'',
      AskConfiguration,
      ConsoleLog (CHR 0x0A # ''Generated base version: 2024.01.15''),
      ConsoleLog ''Found existing tags: v2024.01.15'',
      ConsoleLog (CHR 0x0A # ''Final version: 2024.01.15.16''),
      ConsoleLog ''Branch name: release/v2024.01.15.16'',
      ConsoleLog (CHR 0x0A # ''DRY RUN - No changes will be made''),
      ConsoleLog ''Would create branch: release/v2024.01.15.16'',
      ConsoleLog ''From base branch: develop'',
      ConsoleLog ''Would push to remote: origin'']"
proof -
  let ?w = "\<lparr>git = exampleGit [''v2024.01.15''] [''origin/main''], user = choosingUser,
       now = exampleNow, regExp = exampleRegExp, customFormat = (\<lambda>template m. template)\<rparr>"
  let ?o = "\<lparr>opt_format = ''YYYY.MM.DD'', baseBranch = ''main'', push = False, dryRun = True,
       interactive = True\<rparr>"
  have d: "dryRun (exampleOptions True True)" by (simp add: exampleOptions_def)
  have d': "dryRun ?o" by simp
  have i: "createAction ?w ?o = \<lparr>trace = fst (createReleaseBranch ?w ?o), exitCode = 0\<rparr>"
    by (simp add: createAction_eval[OF body_dry_interactive] body_dry_interactive)
  from dry_run_changes_nothing[OF d,
      of "exampleWorld (exampleGit [''v2024.01.15''] [''origin/main'']) True"]
    dry_run_changes_nothing[OF d', of ?w] d
  show ?thesis by (simp add: run_dry i body_dry_interactive)
qed

text \<open>
  C9. In a run that is neither interactive nor dry, every git command that writes
  comes after the confirmation question, and after the answer yes. When the
  question was asked and the answer is no, the run ends with status 0, nothing on
  the error stream, and no git command that writes: neither \<^verbatim>\<open>createBranch\<close> nor
  \<^verbatim>\<open>pushBranch\<close> is called.
\<close>

theorem confirmation_guards_mutation:
  assumes ni: "\<not> interactive options" and nd: "\<not> dryRun options"
  shows "(\<forall>pre e post. trace (createAction w options) = pre @ e # post \<and> mutation e \<longrightarrow>
            (\<exists>m. AskConfirm m \<in> set pre \<and> promptConfirm (user w) m = Inr True))
       \<and> (\<forall>m. AskConfirm m \<in> set (trace (createAction w options)) \<and>
               promptConfirm (user w) m = Inr False \<longrightarrow>
               exitCode (createAction w options) = 0 \<and>
               mutations (trace (createAction w options)) = [] \<and>
               \<not> list_ex consoleError (trace (createAction w options)))"
  using confirm_run_shapes[OF ni nd, of w]
proof (elim disjE exE conjE)
  fix t line
  assume t: "list_all calm t"
    and r: "createAction w options = \<lparr>trace = t @ [ConsoleError line], exitCode = 1\<rparr>"
  have "\<And>e. e \<in> set (trace (createAction w options)) \<Longrightarrow> \<not> mutation e"
    using r calm_not_mutation[OF t] by auto
  moreover have "\<And>m. AskConfirm m \<notin> set (trace (createAction w options))"
    using r calm_no_ask[OF t] by simp
  ultimately show ?thesis by (metis in_set_conv_decomp)
next
  fix t m0 e line
  assume t: "list_all calm t" and a: "promptConfirm (user w) m0 = Inl e"
    and r: "createAction w options = \<lparr>trace = t @ [AskConfirm m0, ConsoleError line], exitCode = 1\<rparr>"
  have "\<And>e. e \<in> set (trace (createAction w options)) \<Longrightarrow> \<not> mutation e"
    using r calm_not_mutation[OF t] by auto
  moreover have "\<And>m. AskConfirm m \<in> set (trace (createAction w options)) \<Longrightarrow> m = m0"
    using r calm_no_ask[OF t] by auto
  ultimately show ?thesis using a by (metis in_set_conv_decomp sum.distinct(1))
next
  fix t m0
  assume t: "list_all calm t" and a: "promptConfirm (user w) m0 = Inr False"
    and r: "createAction w options =
              \<lparr>trace = t @ [AskConfirm m0, ConsoleLog ''Cancelled''], exitCode = 0\<rparr>"
  have "\<And>e. e \<in> set (trace (createAction w options)) \<Longrightarrow> \<not> mutation e"
    using r calm_not_mutation[OF t] by auto
  then have 1: "\<forall>pre e post. trace (createAction w options) = pre @ e # post \<and> mutation e \<longrightarrow>
            (\<exists>m. AskConfirm m \<in> set pre \<and> promptConfirm (user w) m = Inr True)"
    by (metis in_set_conv_decomp)
  have "exitCode (createAction w options) = 0" using r by simp
  moreover have "mutations (trace (createAction w options)) = []"
    using r calm_mutations[OF t] by (simp add: mutations_def)
  moreover have "\<not> list_ex consoleError (trace (createAction w options))"
    using r calm_no_error[OF t] by simp
  ultimately show ?thesis using 1 by blast
next
  fix t m0 rest code
  assume t: "list_all calm t" and a: "promptConfirm (user w) m0 = Inr True"
    and n: "\<forall>m'. AskConfirm m' \<notin> set rest"
    and r: "createAction w options = \<lparr>trace = t @ AskConfirm m0 # rest, exitCode = code\<rparr>"
  have 1: "\<exists>m. AskConfirm m \<in> set pre \<and> promptConfirm (user w) m = Inr True"
    if "trace (createAction w options) = pre @ e # post" and "mutation e" for pre e post
  proof -
    from that(1) r have eq: "pre @ e # post = t @ AskConfirm m0 # rest" by simp
    have "e \<notin> set t" using calm_not_mutation[OF t] that(2) by blast
    moreover have "e \<noteq> AskConfirm m0" using that(2) by auto
    ultimately have "AskConfirm m0 \<in> set pre" using found_after[OF eq] by blast
    then show ?thesis using a by blast
  qed
  have "\<And>m. AskConfirm m \<in> set (trace (createAction w options)) \<Longrightarrow> m = m0"
    using r n calm_no_ask[OF t] by auto
  then have 2: "\<And>m. AskConfirm m \<in> set (trace (createAction w options)) \<Longrightarrow>
      promptConfirm (user w) m \<noteq> Inr False"
    using a by auto
  show ?thesis using 1 2 by blast
qed

theorem confirmation_guards_mutation_witness:
  "\<not> interactive (exampleOptions False True) \<and> \<not> dryRun (exampleOptions False True) \<and>
   AskConfirm ''Create release branch release/v2024.01.15.16?'' \<in> set (trace (createAction
      (exampleWorld (exampleGit [''v2024.01.15''] [''origin/main'']) False)
      (exampleOptions False True))) \<and>
   promptConfirm (user (exampleWorld (exampleGit [''v2024.01.15''] [''origin/main'']) False))
      ''Create release branch release/v2024.01.15.16?'' = Inr False \<and>
   exitCode (createAction
      (exampleWorld (exampleGit [''v2024.01.15''] [''origin/main'']) False)
      (exampleOptions False True)) = 0 \<and>
   mutations (trace (createAction
      (exampleWorld (exampleGit [''v2024.01.15''] [''origin/main'']) False)
      (exampleOptions False True))) = [] \<and>
   mutation (GitCheckout ''main'') \<and>
   (\<exists>pre post.
      trace (createAction
        (exampleWorld (exampleGit [''v2024.01.15''] [''origin/main'']) True)
        (exampleOptions False True)) = pre @ GitCheckout ''main'' # post \<and>
      AskConfirm ''Create release branch release/v2024.01.15.16?'' \<in> set pre \<and>
      promptConfirm (user (exampleWorld (exampleGit [''v2024.01.15''] [''origin/main'']) True))
        ''Create release branch release/v2024.01.15.16?'' = Inr True)"
proof -
  let ?w = "exampleWorld (exampleGit [''v2024.01.15''] [''origin/main'']) False"
  let ?w' = "exampleWorld (exampleGit [''v2024.01.15''] [''origin/main'']) True"
  let ?o = "exampleOptions False True"
  let ?q = "''Create release branch release/v2024.01.15.16?''"
  let ?pre = "[ConsoleLog ''Repository: main branch'',
     ConsoleLog (CHR 0x0A # ''Generated base version: 2024.01.15''),
     ConsoleLog ''Found existing tags: v2024.01.15'',
     ConsoleLog (CHR 0x0A # ''Final version: 2024.01.15.16''),
     ConsoleLog ''Branch name: release/v2024.01.15.16'',
     AskConfirm ?q,
     ConsoleLog (CHR 0x0A # ''Creating release branch...'')]"
  have ni: "\<not> interactive ?o" and nd: "\<not> dryRun ?o" by (simp_all add: exampleOptions_def)
  have a: "AskConfirm ?q \<in> set (trace (createAction ?w ?o))"
    by (simp add: run_declined)
  have p: "promptConfirm (user ?w) ?q = Inr False"
    by (simp add: exampleWorld_def exampleUser_def)
  have declined: "exitCode (createAction ?w ?o) = 0 \<and> mutations (trace (createAction ?w ?o)) = []"
    using confirmation_guards_mutation[OF ni nd, of ?w] a p by blast
  obtain post where split: "trace (createAction ?w' ?o) = ?pre @ GitCheckout ''main'' # post"
    by (simp add: run_accepted)
  have m: "mutation (GitCheckout ''main'')" by simp
  from confirmation_guards_mutation[OF ni nd, of ?w'] split m
  obtain q where q: "AskConfirm q \<in> set ?pre" "promptConfirm (user ?w') q = Inr True"
    by blast
  then have "q = ?q" by auto
  with q split have "\<exists>pre post. trace (createAction ?w' ?o) = pre @ GitCheckout ''main'' # post \<and>
      AskConfirm ?q \<in> set pre \<and> promptConfirm (user ?w') ?q = Inr True"
    by blast
  with ni nd a p declined m show ?thesis by blast
qed

end
